theory Spec2Isabelle
  imports Complex_Main "HOL-Library.Word"
begin

text \<open>
  A model of the playground module of the bot (\<open>src/modules/playground.ts\<close>) and of its
  channel and code-block utilities (\<open>src/util/findCodeblockFromChannel.ts\<close>): the values
  and built-ins of the language that the code uses, then each function of the two files,
  then the properties of the functions.
\<close>

section \<open>JavaScript values\<close>

text \<open>
  A JavaScript string is a sequence of 16-bit code units; \<open>.length\<close> counts code units.
  ASCII literals are written through \<open>ascii\<close>.
\<close>

type_synonym jsstring = "16 word list"

definition ascii :: "string \<Rightarrow> jsstring" where
  "ascii s = map of_char s"

definition NL :: "16 word" where "NL = 0x0A"
definition BACKTICK :: "16 word" where "BACKTICK = 0x60"
definition ZWSP :: "16 word" where "ZWSP = 0x200B"
definition ELLIPSIS :: "16 word" where "ELLIPSIS = 0x2026"

text \<open>
  Numbers: \<open>NaN\<close>, the two infinities and the finite values. A finite value is kept as
  the exact rational it denotes; the rounding of binary64 is not modelled. Every finite
  number computed from a text below (lengths and offsets) is a small natural number.
  \<open>None\<close> of type \<open>jsnum option\<close> is \<open>undefined\<close>.
\<close>

datatype jsnum = NaN | PInf | NInf | Fin rat

definition num :: "nat \<Rightarrow> jsnum" where
  "num n = Fin (of_nat n)"

fun js_neg :: "jsnum \<Rightarrow> jsnum" where
  "js_neg NaN = NaN"
| "js_neg PInf = NInf"
| "js_neg NInf = PInf"
| "js_neg (Fin a) = Fin (- a)"

fun js_add :: "jsnum \<Rightarrow> jsnum \<Rightarrow> jsnum" where
  "js_add NaN _ = NaN"
| "js_add _ NaN = NaN"
| "js_add PInf NInf = NaN"
| "js_add NInf PInf = NaN"
| "js_add PInf _ = PInf"
| "js_add _ PInf = PInf"
| "js_add NInf _ = NInf"
| "js_add _ NInf = NInf"
| "js_add (Fin a) (Fin b) = Fin (a + b)"

definition js_sub :: "jsnum \<Rightarrow> jsnum \<Rightarrow> jsnum" where
  "js_sub a b = js_add a (js_neg b)"

text \<open>The relational operators \<open><\<close>, \<open>>\<close> and \<open><=\<close> on numbers: false when either side is NaN.\<close>

fun js_lt :: "jsnum \<Rightarrow> jsnum \<Rightarrow> bool" where
  "js_lt NaN _ = False"
| "js_lt _ NaN = False"
| "js_lt PInf _ = False"
| "js_lt _ PInf = True"
| "js_lt _ NInf = False"
| "js_lt NInf _ = True"
| "js_lt (Fin a) (Fin b) = (a < b)"

definition js_gt :: "jsnum \<Rightarrow> jsnum \<Rightarrow> bool" where
  "js_gt a b = js_lt b a"

fun js_le :: "jsnum \<Rightarrow> jsnum \<Rightarrow> bool" where
  "js_le NaN _ = False"
| "js_le _ NaN = False"
| "js_le a b = (\<not> js_lt b a)"

text \<open>\<open>Math.min\<close> of two arguments.\<close>

fun Math_min :: "jsnum \<Rightarrow> jsnum \<Rightarrow> jsnum" where
  "Math_min NaN _ = NaN"
| "Math_min _ NaN = NaN"
| "Math_min a b = (if js_lt b a then b else a)"

text \<open>ToNumber of a value that is a number or \<open>undefined\<close>; and ToBoolean of the same.\<close>

fun ToNumber :: "jsnum option \<Rightarrow> jsnum" where
  "ToNumber None = NaN"
| "ToNumber (Some n) = n"

fun truthy :: "jsnum option \<Rightarrow> bool" where
  "truthy None = False"
| "truthy (Some NaN) = False"
| "truthy (Some (Fin a)) = (a \<noteq> 0)"
| "truthy (Some _) = True"

text \<open>
  The nullish coalescing operator \<open>a ?? b\<close> on values that are a number or
  \<open>undefined\<close>, and strict equality \<open>a === b\<close> of two numbers: NaN equals nothing.
\<close>

fun nullish :: "'a option \<Rightarrow> 'a option \<Rightarrow> 'a option" where
  "nullish None b = b"
| "nullish (Some a) b = Some a"

fun js_strict_eq :: "jsnum \<Rightarrow> jsnum \<Rightarrow> bool" where
  "js_strict_eq NaN b = False"
| "js_strict_eq a NaN = False"
| "js_strict_eq a b = (a = b)"

text \<open>
  Reading \<open>xs[i]\<close> for a number \<open>i\<close>: the element when \<open>i\<close> is an integer index
  inside the array, \<open>undefined\<close> otherwise (also for NaN, an infinity or a fraction).
\<close>

fun arr_get :: "'a list \<Rightarrow> jsnum \<Rightarrow> 'a option" where
  "arr_get xs (Fin q) =
     (if q = of_int \<lfloor>q\<rfloor> \<and> 0 \<le> q \<and> nat \<lfloor>q\<rfloor> < length xs then Some (xs ! nat \<lfloor>q\<rfloor>) else None)"
| "arr_get xs _ = None"

text \<open>The same for an index that is a number or \<open>undefined\<close>.\<close>

fun js_index :: "'a list \<Rightarrow> jsnum option \<Rightarrow> 'a option" where
  "js_index xs None = None"
| "js_index xs (Some i) = arr_get xs i"

text \<open>\<open>Array.prototype.find\<close>: the first element satisfying the predicate, or \<open>undefined\<close>.\<close>

fun js_find :: "('a \<Rightarrow> bool) \<Rightarrow> 'a list \<Rightarrow> 'a option" where
  "js_find p [] = None"
| "js_find p (x # xs) = (if p x then Some x else js_find p xs)"

text \<open>
  \<open>Array.prototype.reduce\<close> with an initial value; the callback receives the
  accumulator, the element and its index.
\<close>

fun reduce_from :: "('b \<Rightarrow> 'a \<Rightarrow> nat \<Rightarrow> 'b) \<Rightarrow> nat \<Rightarrow> 'a list \<Rightarrow> 'b \<Rightarrow> 'b" where
  "reduce_from f i [] acc = acc"
| "reduce_from f i (x # xs) acc = reduce_from f (Suc i) xs (f acc x i)"

definition js_reduce :: "('b \<Rightarrow> 'a \<Rightarrow> nat \<Rightarrow> 'b) \<Rightarrow> 'b \<Rightarrow> 'a list \<Rightarrow> 'b" where
  "js_reduce f init xs = reduce_from f 0 xs init"

text \<open>
  \<open>s.split(sep)\<close> for a separator of one code unit: the pieces between the
  separators, one more than there are separators. \<open>cur\<close> is the piece being read.
\<close>

fun split_from :: "'a \<Rightarrow> 'a list \<Rightarrow> 'a list \<Rightarrow> 'a list list" where
  "split_from sep cur [] = [cur]"
| "split_from sep cur (c # cs) =
     (if c = sep then cur # split_from sep [] cs else split_from sep (cur @ [c]) cs)"

definition js_split :: "16 word \<Rightarrow> jsstring \<Rightarrow> jsstring list" where
  "js_split sep s = split_from sep [] s"

text \<open>
  ToIntegerOrInfinity (truncation towards zero, NaN to 0) and \<open>s.slice(start, end)\<close>:
  a negative index counts from the end, and an \<open>undefined\<close> end is the length.
\<close>

fun ToIntegerOrInfinity :: "jsnum \<Rightarrow> jsnum" where
  "ToIntegerOrInfinity NaN = Fin 0"
| "ToIntegerOrInfinity PInf = PInf"
| "ToIntegerOrInfinity NInf = NInf"
| "ToIntegerOrInfinity (Fin q) = Fin (of_int (if q < 0 then \<lceil>q\<rceil> else \<lfloor>q\<rfloor>))"

fun clamp_index :: "nat \<Rightarrow> jsnum \<Rightarrow> nat" where
  "clamp_index len NInf = 0"
| "clamp_index len PInf = len"
| "clamp_index len NaN = 0"
| "clamp_index len (Fin q) =
     (if q < 0 then nat (max (int len + \<lfloor>q\<rfloor>) 0) else min (nat \<lfloor>q\<rfloor>) len)"

definition js_slice :: "jsstring \<Rightarrow> jsnum option \<Rightarrow> jsnum option \<Rightarrow> jsstring" where
  "js_slice s start end' =
     (let len = length s;
          from = clamp_index len (ToIntegerOrInfinity (ToNumber start));
          to = (case end' of None \<Rightarrow> len
                | Some e \<Rightarrow> clamp_index len (ToIntegerOrInfinity e))
      in take (to - from) (drop from s))"

text \<open>
  What a call can throw: the formatter rejecting the text, a read of a property of
  \<open>undefined\<close>, a request that the platform rejects.
\<close>

datatype error = FormatError | TypeError | ApiError

section \<open>Built-ins of the runtime that the code calls\<close>

subsection \<open>URLSearchParams\<close>

text \<open>
  \<open>new URLSearchParams(init)\<close> for a string: a leading question mark is dropped, the
  string is encoded as UTF-8 (a lone surrogate as U+FFFD), split at ampersands, empty
  pieces are skipped, each piece is split at its first equals sign, a plus becomes a
  space, percent escapes are decoded and the bytes are read back as UTF-8, an ill-formed
  sequence as U+FFFD. Bytes and code points are natural numbers here.
\<close>

definition is_surrogate :: "16 word \<Rightarrow> bool" where
  "is_surrogate c = (0xD800 \<le> c \<and> c \<le> 0xDFFF)"

fun code_points :: "jsstring \<Rightarrow> nat list" where
  "code_points (h # l # cs) =
     (if 0xD800 \<le> h \<and> h \<le> 0xDBFF \<and> 0xDC00 \<le> l \<and> l \<le> 0xDFFF
      then (0x10000 + (unat h - 0xD800) * 0x400 + (unat l - 0xDC00)) # code_points cs
      else (if is_surrogate h then 0xFFFD else unat h) # code_points (l # cs))"
| "code_points [c] = [if is_surrogate c then 0xFFFD else unat c]"
| "code_points [] = []"

definition utf8_encode :: "nat \<Rightarrow> nat list" where
  "utf8_encode cp =
     (if cp < 0x80 then [cp]
      else if cp < 0x800 then [0xC0 + cp div 0x40, 0x80 + cp mod 0x40]
      else if cp < 0x10000
        then [0xE0 + cp div 0x1000, 0x80 + cp div 0x40 mod 0x40, 0x80 + cp mod 0x40]
      else [0xF0 + cp div 0x40000, 0x80 + cp div 0x1000 mod 0x40,
            0x80 + cp div 0x40 mod 0x40, 0x80 + cp mod 0x40])"

definition hex_value :: "nat \<Rightarrow> nat option" where
  "hex_value b =
     (if 0x30 \<le> b \<and> b \<le> 0x39 then Some (b - 0x30)
      else if 0x41 \<le> b \<and> b \<le> 0x46 then Some (b - 0x37)
      else if 0x61 \<le> b \<and> b \<le> 0x66 then Some (b - 0x57)
      else None)"

fun percent_decode :: "nat list \<Rightarrow> nat list" where
  "percent_decode (b # h # l # bs) =
     (case (if b = 0x25 then hex_value h else None, hex_value l) of
        (Some x, Some y) \<Rightarrow> (16 * x + y) # percent_decode bs
      | _ \<Rightarrow> b # percent_decode (h # l # bs))"
| "percent_decode bs = bs"

text \<open>
  The UTF-8 decoder, one byte at a time. The state is the number of continuation bytes
  still needed, the code point so far and the range allowed for the next byte. A byte
  outside that range ends the sequence with U+FFFD and is then read as a lead byte.
\<close>

type_synonym utf8_state = "nat \<times> nat \<times> nat \<times> nat"

definition utf8_start :: utf8_state where
  "utf8_start = (0, 0, 0x80, 0xBF)"

definition utf8_lead :: "nat \<Rightarrow> nat list \<times> utf8_state" where
  "utf8_lead b =
     (if b \<le> 0x7F then ([b], utf8_start)
      else if 0xC2 \<le> b \<and> b \<le> 0xDF then ([], (1, b mod 0x20, 0x80, 0xBF))
      else if 0xE0 \<le> b \<and> b \<le> 0xEF
        then ([], (2, b mod 0x10, if b = 0xE0 then 0xA0 else 0x80, if b = 0xED then 0x9F else 0xBF))
      else if 0xF0 \<le> b \<and> b \<le> 0xF4
        then ([], (3, b mod 0x08, if b = 0xF0 then 0x90 else 0x80, if b = 0xF4 then 0x8F else 0xBF))
      else ([0xFFFD], utf8_start))"

fun utf8_decode_from :: "utf8_state \<Rightarrow> nat list \<Rightarrow> nat list" where
  "utf8_decode_from (needed, cp, lo, hi) [] = (if needed = 0 then [] else [0xFFFD])"
| "utf8_decode_from (needed, cp, lo, hi) (b # bs) =
     (if needed = 0 then
        (case utf8_lead b of (out, st) \<Rightarrow> out @ utf8_decode_from st bs)
      else if lo \<le> b \<and> b \<le> hi then
        (if needed = 1 then (cp * 0x40 + b mod 0x40) # utf8_decode_from utf8_start bs
         else utf8_decode_from (needed - 1, cp * 0x40 + b mod 0x40, 0x80, 0xBF) bs)
      else 0xFFFD # (case utf8_lead b of (out, st) \<Rightarrow> out @ utf8_decode_from st bs))"

definition utf16_encode :: "nat \<Rightarrow> jsstring" where
  "utf16_encode cp =
     (if cp < 0x10000 then [of_nat cp]
      else [of_nat (0xD800 + (cp - 0x10000) div 0x400),
            of_nat (0xDC00 + (cp - 0x10000) mod 0x400)])"

definition form_decode :: "nat list \<Rightarrow> jsstring" where
  "form_decode bs =
     concat (map utf16_encode
       (utf8_decode_from utf8_start
         (percent_decode (map (\<lambda>b. if b = 0x2B then 0x20 else b) bs))))"

definition URLSearchParams :: "jsstring \<Rightarrow> (jsstring \<times> jsstring) list" where
  "URLSearchParams init =
     (let input = (case init of [] \<Rightarrow> [] | c # cs \<Rightarrow> if c = 0x3F then cs else init);
          bytes = concat (map utf8_encode (code_points input));
          sequences = filter (\<lambda>s. s \<noteq> []) (split_from 0x26 [] bytes)
      in map (\<lambda>s. (form_decode (takeWhile (\<lambda>b. b \<noteq> 0x3D) s),
                    form_decode (drop 1 (dropWhile (\<lambda>b. b \<noteq> 0x3D) s)))) sequences)"

text \<open>\<open>params.get(name)\<close>: the value of the first pair with that name, or \<open>null\<close>.\<close>

fun params_get :: "(jsstring \<times> jsstring) list \<Rightarrow> jsstring \<Rightarrow> jsstring option" where
  "params_get [] name = None"
| "params_get ((n, v) # ps) name = (if n = name then Some v else params_get ps name)"

subsection \<open>Number applied to a string\<close>

text \<open>
  The string is trimmed of white space and line terminators; the empty string is 0; a
  binary, octal or hexadecimal integer literal has no sign; a decimal literal may have a
  sign, a fraction and an exponent; \<open>Infinity\<close> may have a sign; anything else is NaN.
  The value of a decimal literal is the exact rational it denotes: the language rounds
  it to the nearest binary64 number, and a literal beyond the range of binary64 to an
  infinity, which this function does not. The two agree on every literal that denotes
  an integer below 2 to the power 53 and on every text that is no literal, and the
  properties below apply the function to such texts only.
\<close>

definition is_white_space :: "16 word \<Rightarrow> bool" where
  "is_white_space c =
     (c \<in> {0x09, 0x0A, 0x0B, 0x0C, 0x0D, 0x20, 0xA0, 0x1680, 0x2028, 0x2029, 0x202F,
            0x205F, 0x3000, 0xFEFF}
      \<or> (0x2000 \<le> c \<and> c \<le> 0x200A))"

definition trim :: "jsstring \<Rightarrow> jsstring" where
  "trim s = rev (dropWhile is_white_space (rev (dropWhile is_white_space s)))"

definition digit_value :: "nat \<Rightarrow> 16 word \<Rightarrow> nat option" where
  "digit_value radix c =
     (let v = (if 0x30 \<le> c \<and> c \<le> 0x39 then Some (unat c - 0x30)
               else if 0x41 \<le> c \<and> c \<le> 0x5A then Some (unat c - 0x37)
               else if 0x61 \<le> c \<and> c \<le> 0x7A then Some (unat c - 0x57)
               else None)
      in case v of None \<Rightarrow> None | Some d \<Rightarrow> if d < radix then Some d else None)"

definition is_digit :: "nat \<Rightarrow> 16 word \<Rightarrow> bool" where
  "is_digit radix c = (digit_value radix c \<noteq> None)"

definition digits_value :: "nat \<Rightarrow> jsstring \<Rightarrow> nat" where
  "digits_value radix ds =
     foldl (\<lambda>a c. radix * a + (case digit_value radix c of None \<Rightarrow> 0 | Some d \<Rightarrow> d)) 0 ds"

text \<open>The optional exponent part: its value, or \<open>None\<close> when the rest is not one.\<close>

definition exponent_part :: "jsstring \<Rightarrow> int option" where
  "exponent_part s =
     (case s of
        [] \<Rightarrow> Some 0
      | c # t \<Rightarrow>
          if c = 0x65 \<or> c = 0x45 then
            (let negative = (t \<noteq> [] \<and> hd t = 0x2D);
                 ds = (if t \<noteq> [] \<and> (hd t = 0x2D \<or> hd t = 0x2B) then tl t else t)
             in if ds \<noteq> [] \<and> list_all (is_digit 10) ds
                then Some (if negative then - int (digits_value 10 ds)
                           else int (digits_value 10 ds))
                else None)
          else None)"

definition unsigned_decimal :: "jsstring \<Rightarrow> jsnum" where
  "unsigned_decimal s =
     (if s = ascii ''Infinity'' then PInf
      else
        let ip = takeWhile (is_digit 10) s;
            r1 = dropWhile (is_digit 10) s;
            dot = (r1 \<noteq> [] \<and> hd r1 = 0x2E);
            fp = (if dot then takeWhile (is_digit 10) (tl r1) else []);
            r2 = (if dot then dropWhile (is_digit 10) (tl r1) else r1)
        in if ip = [] \<and> fp = [] then NaN
           else case exponent_part r2 of
                  None \<Rightarrow> NaN
                | Some e \<Rightarrow>
                    Fin (of_nat (digits_value 10 (ip @ fp)) * 10 powi (e - int (length fp))))"

definition non_decimal :: "jsstring \<Rightarrow> jsnum option" where
  "non_decimal s =
     (case s of
        z # p # ds \<Rightarrow>
          (let radix = (if p = 0x78 \<or> p = 0x58 then 16
                        else if p = 0x6F \<or> p = 0x4F then 8
                        else if p = 0x62 \<or> p = 0x42 then 2 else 0)
           in if z = 0x30 \<and> radix \<noteq> 0
              then Some (if ds \<noteq> [] \<and> list_all (is_digit radix) ds
                         then num (digits_value radix ds) else NaN)
              else None)
      | _ \<Rightarrow> None)"

definition Number :: "jsstring \<Rightarrow> jsnum" where
  "Number s =
     (let t = trim s
      in if t = [] then Fin 0
         else case non_decimal t of
                Some v \<Rightarrow> v
              | None \<Rightarrow>
                  if hd t = 0x2B then unsigned_decimal (tl t)
                  else if hd t = 0x2D then js_neg (unsigned_decimal (tl t))
                  else unsigned_decimal t)"

subsection \<open>Regular expressions\<close>

text \<open>
  A backtracking matcher for the constructs the two patterns of the repository use: a
  class of code units, a literal, sequence, alternative (left first), the greedy
  quantifiers \<open>*\<close> and \<open>{0,n}\<close> and a numbered capturing group. A state is the array of
  captures and the input still to read; \<open>rx_run\<close> lists the states after a match in the
  order in which backtracking tries them. An iteration of a quantifier that reads
  nothing is rejected, so the length of the input bounds the iterations of \<open>*\<close>.
\<close>

datatype regex =
    Eps
  | Class "16 word \<Rightarrow> bool"
  | Lit jsstring
  | Seq regex regex
  | Alt regex regex
  | Star regex
  | AtMost nat regex
  | Group nat regex

type_synonym rx_state = "jsstring option list \<times> jsstring"

fun rx_repeat :: "nat \<Rightarrow> (rx_state \<Rightarrow> rx_state list) \<Rightarrow> rx_state \<Rightarrow> rx_state list" where
  "rx_repeat 0 f st = [st]"
| "rx_repeat (Suc n) f st =
     concat (map (\<lambda>st'. if length (snd st') < length (snd st) then rx_repeat n f st' else [])
                 (f st)) @ [st]"

fun rx_run :: "regex \<Rightarrow> rx_state \<Rightarrow> rx_state list" where
  "rx_run Eps st = [st]"
| "rx_run (Class p) st =
     (case snd st of [] \<Rightarrow> [] | c # cs \<Rightarrow> if p c then [(fst st, cs)] else [])"
| "rx_run (Lit l) st =
     (if take (length l) (snd st) = l then [(fst st, drop (length l) (snd st))] else [])"
| "rx_run (Seq a b) st = concat (map (rx_run b) (rx_run a st))"
| "rx_run (Alt a b) st = rx_run a st @ rx_run b st"
| "rx_run (Star a) st = rx_repeat (length (snd st)) (rx_run a) st"
| "rx_run (AtMost n a) st = rx_repeat n (rx_run a) st"
| "rx_run (Group i a) st =
     map (\<lambda>st'. ((fst st')[i := Some (take (length (snd st) - length (snd st')) (snd st))],
                   snd st'))
         (rx_run a st)"

definition Opt :: "regex \<Rightarrow> regex" where
  "Opt r = AtMost 1 r"

definition Plus :: "regex \<Rightarrow> regex" where
  "Plus r = Seq r (Star r)"

definition Seqs :: "regex list \<Rightarrow> regex" where
  "Seqs rs = foldr Seq rs Eps"

primrec group_count :: "regex \<Rightarrow> nat" where
  "group_count Eps = 0"
| "group_count (Class p) = 0"
| "group_count (Lit l) = 0"
| "group_count (Seq a b) = max (group_count a) (group_count b)"
| "group_count (Alt a b) = max (group_count a) (group_count b)"
| "group_count (Star a) = group_count a"
| "group_count (AtMost n a) = group_count a"
| "group_count (Group i a) = max i (group_count a)"

text \<open>
  \<open>regex.exec(s)\<close> for a pattern without flags: the leftmost start at which the pattern
  matches, with the first match that backtracking finds there. The result is the match
  array (the matched text, then the groups; a group that took no part is
  \<open>undefined\<close>), or \<open>null\<close>.
\<close>

fun exec_from :: "regex \<Rightarrow> jsstring option list \<Rightarrow> jsstring \<Rightarrow> jsstring option list option" where
  "exec_from r caps s =
     (case rx_run r (caps, s) of
        (caps', rest) # _ \<Rightarrow> Some (caps'[0 := Some (take (length s - length rest) s)])
      | [] \<Rightarrow> (case s of [] \<Rightarrow> None | _ # t \<Rightarrow> exec_from r caps t))"

definition RegExp_exec :: "regex \<Rightarrow> jsstring \<Rightarrow> jsstring option list option" where
  "RegExp_exec r s = exec_from r (replicate (Suc (group_count r)) None) s"

text \<open>\<open>m[i]\<close> on a match array: a string or \<open>undefined\<close>.\<close>

definition match_at :: "jsstring option list \<Rightarrow> nat \<Rightarrow> jsstring option" where
  "match_at m i = (if i < length m then m ! i else None)"

text \<open>\<open>\w\<close>; \<open>\s\<close> is \<open>is_white_space\<close>.\<close>

definition is_word :: "16 word \<Rightarrow> bool" where
  "is_word c =
     ((0x41 \<le> c \<and> c \<le> 0x5A) \<or> (0x61 \<le> c \<and> c \<le> 0x7A) \<or> (0x30 \<le> c \<and> c \<le> 0x39)
      \<or> c = 0x5F)"

text \<open>
  \<open>Array.prototype.sort\<close> with a comparator: the sort is stable, an element moves before
  another only when the comparator says it is smaller, and a comparator result of NaN
  counts as 0.
\<close>

fun sort_insert :: "('a \<Rightarrow> 'a \<Rightarrow> jsnum) \<Rightarrow> 'a \<Rightarrow> 'a list \<Rightarrow> 'a list" where
  "sort_insert cmp x [] = [x]"
| "sort_insert cmp x (y # ys) =
     (if js_gt (cmp y x) (num 0) then x # y # ys else y # sort_insert cmp x ys)"

definition js_sort :: "('a \<Rightarrow> 'a \<Rightarrow> jsnum) \<Rightarrow> 'a list \<Rightarrow> 'a list" where
  "js_sort cmp xs = foldl (\<lambda>acc x. sort_insert cmp x acc) [] xs"

section \<open>findCodeblockFromChannel.ts: rendering a code block\<close>

text \<open>
  \<^verbatim>\<open>
  const CODEBLOCK = (three backticks);
  const DISCORD_MAX_LENGTH = 2048;
  const MAX_CODE_LENGTH = DISCORD_MAX_LENGTH - (CODEBLOCK + "ts\n" + CODEBLOCK).length;
  \<close>
\<close>

definition CODEBLOCK :: jsstring where
  "CODEBLOCK = [BACKTICK, BACKTICK, BACKTICK]"

definition DISCORD_MAX_LENGTH :: nat where
  "DISCORD_MAX_LENGTH = 2048"

definition MAX_CODE_LENGTH :: nat where
  "MAX_CODE_LENGTH = DISCORD_MAX_LENGTH - length (CODEBLOCK @ ascii ''ts'' @ [NL] @ CODEBLOCK)"

text \<open>
  \<open>escapeCode\<close> replaces, everywhere, a backtick that is directly followed by a
  backtick (a lookahead: the second one is not consumed) by a backtick and U+200B.
\<close>

fun escapeCode :: "jsstring \<Rightarrow> jsstring" where
  "escapeCode (c # d # cs) =
     (if c = BACKTICK \<and> d = BACKTICK then BACKTICK # ZWSP # escapeCode (d # cs)
      else c # escapeCode (d # cs))"
| "escapeCode cs = cs"

text \<open>
  \<^verbatim>\<open>
  const escaped = escapeCode(code);
  const truncated = escaped.length > MAX_CODE_LENGTH
      ? escaped.slice(0, MAX_CODE_LENGTH - 1) + (U+2026) : escaped;
  return CODEBLOCK + "ts\n" + truncated + CODEBLOCK;
  \<close>
\<close>

definition truncated :: "jsstring \<Rightarrow> jsstring" where
  "truncated escaped =
     (if length escaped > MAX_CODE_LENGTH
      then js_slice escaped (Some (num 0)) (Some (num (MAX_CODE_LENGTH - 1))) @ [ELLIPSIS]
      else escaped)"

definition makeCodeBlock :: "jsstring \<Rightarrow> jsstring" where
  "makeCodeBlock code =
     (let escaped = escapeCode code
      in CODEBLOCK @ ascii ''ts'' @ [NL] @ truncated escaped @ CODEBLOCK)"

text \<open>
  Two predicates the claims about the renderer are stated with: the text has two
  adjacent backticks; a fence (three backticks) starts at position \<open>i\<close>.
\<close>

fun adjacent_backticks :: "jsstring \<Rightarrow> bool" where
  "adjacent_backticks (c # d # cs) =
     ((c = BACKTICK \<and> d = BACKTICK) \<or> adjacent_backticks (d # cs))"
| "adjacent_backticks cs = False"

definition fence_at :: "jsstring \<Rightarrow> nat \<Rightarrow> bool" where
  "fence_at s i = (take 3 (drop i s) = CODEBLOCK)"

section \<open>playground.ts: the line-offset table\<close>

text \<open>
  The first statements of \<open>createPlaygroundEmbed\<close> after decoding:
  \<^verbatim>\<open>
  const lines = unzipped.split('\n');
  const lineLengths = lines.map(l => l.length);
  const cumulativeLineLengths = lineLengths.reduce(
      (acc, len, i) => { acc.push(len + acc[i] + '\n'.length); return acc; }, [0]);
  \<close>
\<close>

definition lineLengths :: "jsstring \<Rightarrow> jsnum list" where
  "lineLengths unzipped = map (\<lambda>l. num (length l)) (js_split NL unzipped)"

definition push_line :: "jsnum list \<Rightarrow> jsnum \<Rightarrow> nat \<Rightarrow> jsnum list" where
  "push_line acc len i = acc @ [js_add (js_add len (ToNumber (arr_get acc (num i)))) (num 1)]"

definition cumulativeLineLengths :: "jsstring \<Rightarrow> jsnum list" where
  "cumulativeLineLengths unzipped = js_reduce push_line [num 0] (lineLengths unzipped)"

section \<open>playground.ts: the selection encoded in the query\<close>

definition MAX_EMBED_LENGTH :: nat where
  "MAX_EMBED_LENGTH = 512"

definition DEFAULT_EMBED_LENGTH :: nat where
  "DEFAULT_EMBED_LENGTH = 256"

text \<open>
  \<^verbatim>\<open>
  function getPosFromPGURLParam(params: URLSearchParams, name: string) {
      const p = params.get(name);
      if (p === null) return undefined;
      const n = Number(p);
      return n === NaN || n < 1 ? undefined : n - 1; // lines/chars are 1-indexed :(
  }
  \<close>
\<close>

definition getPosFromPGURLParam :: "(jsstring \<times> jsstring) list \<Rightarrow> jsstring \<Rightarrow> jsnum option" where
  "getPosFromPGURLParam params name =
     (case params_get params name of
        None \<Rightarrow> None
      | Some p \<Rightarrow>
          (let n = Number p
           in if js_strict_eq n NaN \<or> js_lt n (num 1) then None else Some (js_sub n (num 1))))"

record position =
  line :: "jsnum option"
  column :: "jsnum option"

record selection =
  startLine :: "jsnum option"
  startColumn :: "jsnum option"
  endLine :: "jsnum option"
  endColumn :: "jsnum option"

text \<open>
  \<^verbatim>\<open>
  function getSelectionFromQuery(query: string) {
      const params = new URLSearchParams(query);
      const cursorPosition = {
          line: getPosFromPGURLParam(params, 'pln'),
          column: getPosFromPGURLParam(params, 'pc') };
      const selectionPosition = {
          line: getPosFromPGURLParam(params, 'ssl'),
          column: getPosFromPGURLParam(params, 'ssc') };
      // Sometimes the cursor is at the start of the selection, and other times
      // it's at the end of the selection; we don't care which, only that the
      // lower one always comes first.
      const [start, end] = [cursorPosition, selectionPosition].sort(
          (a, b) => (a.line ?? 0) - (b.line ?? 0));
      return { startLine: start.line, startColumn: start.column,
               endLine: end.line, endColumn: end.column };
  }
  \<close>
  The sorted array has the two elements of the array it was made from, so both reads
  below are inside it.
\<close>

definition by_line :: "position \<Rightarrow> position \<Rightarrow> jsnum" where
  "by_line a b =
     js_sub (ToNumber (nullish (line a) (Some (num 0))))
            (ToNumber (nullish (line b) (Some (num 0))))"

definition getSelectionFromQuery :: "jsstring \<Rightarrow> selection" where
  "getSelectionFromQuery query =
     (let params = URLSearchParams query;
          cursorPosition = \<lparr>line = getPosFromPGURLParam params (ascii ''pln''),
                            column = getPosFromPGURLParam params (ascii ''pc'')\<rparr>;
          selectionPosition = \<lparr>line = getPosFromPGURLParam params (ascii ''ssl''),
                               column = getPosFromPGURLParam params (ascii ''ssc'')\<rparr>;
          sorted = js_sort by_line [cursorPosition, selectionPosition];
          start = sorted ! 0;
          end' = sorted ! 1
      in \<lparr>startLine = line start, startColumn = column start,
          endLine = line end', endColumn = column end'\<rparr>)"

section \<open>playground.ts: createPlaygroundEmbed\<close>

text \<open>
  The statements after the table, each local constant as a definition of its own:
  \<^verbatim>\<open>
  const startChar = cumulativeLineLengths[startLine ?? 0];
  const cutoff = Math.min(startChar + DEFAULT_EMBED_LENGTH, unzipped.length);
  const endChar = endLine
      ? cumulativeLineLengths[endLine]
      : cumulativeLineLengths.find(len => len > cutoff) ??
        cumulativeLineLengths[cumulativeLineLengths.length - 1];
  const pretty = format(unzipped, {..., rangeStart: startChar, rangeEnd: endChar});
  const prettyEnd = pretty.length - (unzipped.length - endChar);
  const maxEnd = Math.min(prettyEnd, startChar + MAX_EMBED_LENGTH);
  const extract = pretty.slice(startChar, maxEnd);
  \<close>
  A read outside the table is \<open>undefined\<close>, and \<open>undefined\<close> in arithmetic is NaN.
\<close>

definition startChar :: "jsnum list \<Rightarrow> selection \<Rightarrow> jsnum option" where
  "startChar cll sel = js_index cll (nullish (startLine sel) (Some (num 0)))"

definition cutoff :: "jsnum option \<Rightarrow> jsstring \<Rightarrow> jsnum" where
  "cutoff sc unzipped =
     Math_min (js_add (ToNumber sc) (num DEFAULT_EMBED_LENGTH)) (num (length unzipped))"

definition endChar :: "jsnum list \<Rightarrow> jsnum \<Rightarrow> selection \<Rightarrow> jsnum option" where
  "endChar cll limit sel =
     (if truthy (endLine sel) then js_index cll (endLine sel)
      else nullish (js_find (\<lambda>len. js_gt len limit) cll)
                   (arr_get cll (js_sub (num (length cll)) (num 1))))"

definition prettyEnd :: "jsstring \<Rightarrow> jsstring \<Rightarrow> jsnum option \<Rightarrow> jsnum" where
  "prettyEnd pretty unzipped ec =
     js_sub (num (length pretty)) (js_sub (num (length unzipped)) (ToNumber ec))"

definition maxEnd :: "jsnum \<Rightarrow> jsnum option \<Rightarrow> jsnum" where
  "maxEnd pe sc = Math_min pe (js_add (ToNumber sc) (num MAX_EMBED_LENGTH))"

definition extract_text :: "jsstring \<Rightarrow> jsnum option \<Rightarrow> jsnum \<Rightarrow> jsstring" where
  "extract_text pretty sc me = js_slice pretty sc (Some me)"

text \<open>
  The two collaborators are parameters: \<open>decompress\<close> is
  \<open>decompressFromEncodedURIComponent\<close> (a string or \<open>null\<close>), \<open>format\<close> is the
  formatter called with the text and the two ends of the range, which returns the
  formatted text or throws. Of the embed only the link and the description vary; the
  description stays unset when the payload does not decode to a non-empty text. The
  last parameter is the optional \<open>url\<close>, which defaults to the matched link.
\<close>

record embed =
  url :: jsstring
  description :: "jsstring option"

definition createPlaygroundEmbed ::
  "(jsstring option \<Rightarrow> jsstring option) \<Rightarrow>
   (jsstring \<Rightarrow> jsnum option \<Rightarrow> jsnum option \<Rightarrow> error + jsstring) \<Rightarrow>
   jsstring \<times> jsstring \<times> jsstring \<Rightarrow> jsstring option \<Rightarrow> error + embed" where
  "createPlaygroundEmbed decompress format exec url_arg =
     (case exec of (matched, query, code) \<Rightarrow>
        let embed = \<lparr>url = (case url_arg of None \<Rightarrow> matched | Some u \<Rightarrow> u),
                     description = None\<rparr>
        in case decompress (Some code) of
             None \<Rightarrow> Inr embed
           | Some unzipped \<Rightarrow>
               if unzipped = [] then Inr embed
               else
                 let cll = cumulativeLineLengths unzipped;
                     sel = getSelectionFromQuery query;
                     sc = startChar cll sel;
                     ec = endChar cll (cutoff sc unzipped) sel
                 in case format unzipped sc ec of
                      Inl e \<Rightarrow> Inl e
                    | Inr pretty \<Rightarrow>
                        Inr (embed\<lparr>description :=
                               Some (makeCodeBlock
                                 (extract_text pretty sc (maxEnd (prettyEnd pretty unzipped ec) sc)))\<rparr>))"

section \<open>findCodeblockFromChannel.ts: scanning a channel\<close>

text \<open>
  \<open>CODEBLOCK_REGEX\<close>: a fence, optionally \<open>ts\<close> or \<open>typescript\<close>, a newline, group 1
  of one or more code units of any kind (greedy), a fence.
\<close>

definition CODEBLOCK_REGEX :: regex where
  "CODEBLOCK_REGEX =
     Seqs [Lit CODEBLOCK, Opt (Alt (Lit (ascii ''ts'')) (Lit (ascii ''typescript''))),
           Lit [NL], Group 1 (Plus (Class (\<lambda>c. True))), Lit CODEBLOCK]"

text \<open>
  \<open>PLAYGROUND_REGEX\<close>:
  \<^verbatim>\<open>https?:\/\/(?:www\.)?typescriptlang\.org\/(?:play|dev\/bug-workbench)\<close>
  \<^verbatim>\<open>(?:\/index\.html)?\/?(\??(?:\w+=[^\s#&]+)?(?:\&\w+=[^\s#&]+)*)#code\/([\w\-+_]+={0,4})\<close>
  Group 1 is the query, group 2 the encoded payload.
\<close>

definition query_param :: regex where
  "query_param =
     Seqs [Plus (Class is_word), Lit (ascii ''=''),
           Plus (Class (\<lambda>c. \<not> is_white_space c \<and> c \<noteq> 0x23 \<and> c \<noteq> 0x26))]"

definition PLAYGROUND_REGEX :: regex where
  "PLAYGROUND_REGEX =
     Seqs [Lit (ascii ''http''), Opt (Lit (ascii ''s'')), Lit (ascii ''://''),
           Opt (Lit (ascii ''www.'')), Lit (ascii ''typescriptlang.org/''),
           Alt (Lit (ascii ''play'')) (Lit (ascii ''dev/bug-workbench'')),
           Opt (Lit (ascii ''/index.html'')), Opt (Lit (ascii ''/'')),
           Group 1 (Seqs [Opt (Lit (ascii ''?'')), Opt query_param,
                          Star (Seq (Lit (ascii ''&'')) query_param)]),
           Lit (ascii ''#code/''),
           Group 2 (Seq (Plus (Class (\<lambda>c. is_word c \<or> c = 0x2D \<or> c = 0x2B \<or> c = 0x5F)))
                        (AtMost 4 (Lit (ascii ''=''))))]"

text \<open>
  A message as the scans read it: its id, whether it is partial, whether its author is a
  bot, its text, and the link of each of its embeds (a string or unset).
\<close>

record message =
  message_id :: jsstring
  partial :: bool
  author_bot :: bool
  content :: jsstring
  embeds :: "jsstring option list"

text \<open>
  \<^verbatim>\<open>
  export async function findCodeblockFromChannel(channel, ignoreLatest?: boolean) {
      const msgs = (await channel.messages.fetch({ limit: 10 }))
          .array().filter(msg => msg.author.bot !== true);
      if (ignoreLatest) msgs.shift();
      return msgs
          .map(m => CODEBLOCK_REGEX.exec(m.content))
          .map(x => (x ? x[1] : ''))
          .filter(x => x !== '')[0];
  }
  \<close>
  The argument \<open>fetched\<close> is what the fetch returned: the most recent messages, newest
  first.
\<close>

definition findCodeblockFromChannel :: "message list \<Rightarrow> bool \<Rightarrow> jsstring option" where
  "findCodeblockFromChannel fetched ignoreLatest =
     (let msgs = filter (\<lambda>msg. author_bot msg \<noteq> True) fetched;
          msgs = (if ignoreLatest then drop 1 msgs else msgs);
          found = filter (\<lambda>x. x \<noteq> Some [])
                    (map (\<lambda>x. case x of None \<Rightarrow> Some [] | Some m \<Rightarrow> match_at m 1)
                      (map (\<lambda>m. RegExp_exec CODEBLOCK_REGEX (content m)) msgs))
      in case found of [] \<Rightarrow> None | x # _ \<Rightarrow> x)"

text \<open>
  \<^verbatim>\<open>
  export async function findCodeFromChannel(channel: TextChannel) {
      const msgs = (await channel.messages.fetch({ limit: 10 })).array();
      for (const { author, content, embeds } of msgs) {
          if (!author.bot) {
              const match = content.match(CODEBLOCK_REGEX);
              if (match && match[1].length) { return match[1]; }
          }
          const match = content.match(PLAYGROUND_REGEX);
          if (match) { return decompressFromEncodedURIComponent(match[1]); }
          for (const embed of embeds) {
              const match = embed.url?.match(PLAYGROUND_REGEX);
              if (match) { return decompressFromEncodedURIComponent(match[1]); }
          }
      }
  }
  \<close>
  The result is a string, \<open>null\<close> (what the decoder returns for a payload it cannot
  read) or \<open>undefined\<close> (the loop ended). \<open>None\<close> of the three helper functions means
  that the loop goes on; reading \<open>.length\<close> of an unset group would throw.
\<close>

datatype 'a returned = Undefined | Null | Value 'a

definition of_decoded :: "jsstring option \<Rightarrow> jsstring returned" where
  "of_decoded d = (case d of None \<Rightarrow> Null | Some s \<Rightarrow> Value s)"

definition codeblock_of :: "message \<Rightarrow> (error + jsstring returned) option" where
  "codeblock_of msg =
     (if \<not> author_bot msg then
        (case RegExp_exec CODEBLOCK_REGEX (content msg) of
           None \<Rightarrow> None
         | Some m \<Rightarrow>
             (case match_at m 1 of
                None \<Rightarrow> Some (Inl TypeError)
              | Some body \<Rightarrow> if length body \<noteq> 0 then Some (Inr (Value body)) else None))
      else None)"

definition link_of :: "(jsstring option \<Rightarrow> jsstring option) \<Rightarrow> jsstring \<Rightarrow> jsstring returned option" where
  "link_of decompress text =
     (case RegExp_exec PLAYGROUND_REGEX text of
        None \<Rightarrow> None
      | Some m \<Rightarrow> Some (of_decoded (decompress (match_at m 1))))"

fun embed_link_of :: "(jsstring option \<Rightarrow> jsstring option) \<Rightarrow> jsstring option list \<Rightarrow> jsstring returned option" where
  "embed_link_of decompress [] = None"
| "embed_link_of decompress (u # us) =
     (case (case u of None \<Rightarrow> None | Some text \<Rightarrow> link_of decompress text) of
        Some r \<Rightarrow> Some r
      | None \<Rightarrow> embed_link_of decompress us)"

fun findCodeFromChannel :: "(jsstring option \<Rightarrow> jsstring option) \<Rightarrow> message list \<Rightarrow> error + jsstring returned" where
  "findCodeFromChannel decompress [] = Inr Undefined"
| "findCodeFromChannel decompress (msg # msgs) =
     (case codeblock_of msg of
        Some r \<Rightarrow> r
      | None \<Rightarrow>
          (case link_of decompress (content msg) of
             Some r \<Rightarrow> Inr r
           | None \<Rightarrow>
               (case embed_link_of decompress (embeds msg) of
                  Some r \<Rightarrow> Inr r
                | None \<Rightarrow> findCodeFromChannel decompress msgs)))"

section \<open>playground.ts: retracting a reply after an edit\<close>

text \<open>
  Modelled from the spec: \<open>LimitedSizeMap\<close> (util/limitedSizeMap is not among the
  sources). The spec's BoundedCache: a fixed capacity; \<open>set\<close> inserts or overwrites,
  an overwrite keeps the key's place in the insertion order, and when the number of keys
  then exceeds the capacity the oldest inserted key is evicted; \<open>get\<close>, \<open>has\<close> and
  \<open>delete\<close> are those of a mapping. The entries are kept oldest first.
\<close>

record ('k, 'v) limited_map =
  capacity :: nat
  entries :: "('k \<times> 'v) list"

definition map_has :: "('k, 'v) limited_map \<Rightarrow> 'k \<Rightarrow> bool" where
  "map_has m k = (k \<in> set (map fst (entries m)))"

definition map_get :: "('k, 'v) limited_map \<Rightarrow> 'k \<Rightarrow> 'v option" where
  "map_get m k = map_of (entries m) k"

definition map_delete :: "('k, 'v) limited_map \<Rightarrow> 'k \<Rightarrow> ('k, 'v) limited_map" where
  "map_delete m k = m\<lparr>entries := filter (\<lambda>e. fst e \<noteq> k) (entries m)\<rparr>"

definition map_set :: "('k, 'v) limited_map \<Rightarrow> 'k \<Rightarrow> 'v \<Rightarrow> ('k, 'v) limited_map" where
  "map_set m k v =
     (let es = (if map_has m k
                then map (\<lambda>e. if fst e = k then (k, v) else e) (entries m)
                else entries m @ [(k, v)])
      in m\<lparr>entries := (if length es > capacity m then drop 1 es else es)\<rparr>)"

text \<open>
  The state the handler works on: the map from the id of a tracked message to the reply
  the bot sent for it, and the text of each message of the bot that still exists on the
  platform. \<open>edit\<close> replaces the text of an existing message and rejects for one that
  was deleted.
  \<^verbatim>\<open>
  async onLongFix(_oldMsg: Message, msg: Message) {
      if (msg.partial) await msg.fetch();
      const exec = PLAYGROUND_REGEX.exec(msg.content);
      if (msg.author.bot || !this.editedLongLink.has(msg.id) || exec) return;
      const botMsg = this.editedLongLink.get(msg.id);
      await botMsg?.edit('');
      this.editedLongLink.delete(msg.id);
  }
  \<close>
  \<open>fetch\<close> is the platform's answer to \<open>msg.fetch()\<close>: the complete message, or a
  rejection. The result is the tracker after the handler and the error it threw, if any.
\<close>

record tracker =
  editedLongLink :: "(jsstring, jsstring) limited_map"
  reply_text :: "jsstring \<rightharpoonup> jsstring"

definition edit :: "(jsstring \<rightharpoonup> jsstring) \<Rightarrow> jsstring \<Rightarrow> jsstring \<Rightarrow> error + (jsstring \<rightharpoonup> jsstring)" where
  "edit texts reply new_text =
     (if texts reply = None then Inl ApiError else Inr (texts(reply \<mapsto> new_text)))"

definition onLongFix ::
  "(message \<Rightarrow> error + message) \<Rightarrow> tracker \<Rightarrow> message \<Rightarrow> tracker \<times> error option" where
  "onLongFix fetch st msg0 =
     (case (if partial msg0 then fetch msg0 else Inr msg0) of
        Inl e \<Rightarrow> (st, Some e)
      | Inr msg \<Rightarrow>
          let exec = RegExp_exec PLAYGROUND_REGEX (content msg)
          in if author_bot msg \<or> \<not> map_has (editedLongLink st) (message_id msg) \<or> exec \<noteq> None
             then (st, None)
             else
               (case map_get (editedLongLink st) (message_id msg) of
                  None \<Rightarrow>
                    (st\<lparr>editedLongLink := map_delete (editedLongLink st) (message_id msg)\<rparr>,
                     None)
                | Some botMsg \<Rightarrow>
                    (case edit (reply_text st) botMsg [] of
                       Inl e \<Rightarrow> (st, Some e)
                     | Inr texts \<Rightarrow>
                         (st\<lparr>reply_text := texts,
                             editedLongLink :=
                               map_delete (editedLongLink st) (message_id msg)\<rparr>,
                          None))))"

section \<open>Auxiliary functions and sample inputs of the proofs\<close>

text \<open>The offsets as natural numbers: a running sum started at \<open>k\<close>.\<close>

fun offsets_from :: "nat \<Rightarrow> nat list \<Rightarrow> nat list" where
  "offsets_from k [] = []"
| "offsets_from k (n # ns) = (n + k + 1) # offsets_from (n + k + 1) ns"

text \<open>The table of a text as natural numbers.\<close>

definition line_offsets :: "jsstring \<Rightarrow> nat list" where
  "line_offsets unzipped = 0 # offsets_from 0 (map length (js_split NL unzipped))"

text \<open>
  Sample inputs: a text of two lines, a message text that is one fenced block, a link
  without a query, a message of a user and one of a bot.
\<close>

definition two_lines :: jsstring where
  "two_lines = ascii (''ab'' @ [CHR 0x0A] @ ''cd'')"

definition fenced :: "string \<Rightarrow> jsstring" where
  "fenced body = CODEBLOCK @ ascii ''ts'' @ [NL] @ ascii body @ CODEBLOCK"

definition sample_link :: jsstring where
  "sample_link = ascii ''https://www.typescriptlang.org/play#code/abc''"

definition user_message :: "jsstring \<Rightarrow> message" where
  "user_message text =
     \<lparr>message_id = ascii ''1'', partial = False, author_bot = False, content = text,
      embeds = []\<rparr>"

definition bot_message :: "jsstring \<Rightarrow> message" where
  "bot_message text =
     \<lparr>message_id = ascii ''2'', partial = False, author_bot = True, content = text,
      embeds = []\<rparr>"

text \<open>A decoder that reads no payload: every call returns \<open>null\<close>.\<close>

definition failing_decoder :: "jsstring option \<Rightarrow> jsstring option" where
  "failing_decoder payload = None"

text \<open>A decoder that reads every payload as the empty string.\<close>

definition blank_decoder :: "jsstring option \<Rightarrow> jsstring option" where
  "blank_decoder payload = Some []"

text \<open>
  A tracker that holds one entry: the message \<open>key\<close> was answered by the reply 9. In
  the first the reply is still there, in the second it was deleted.
\<close>

definition tracking :: "jsstring \<Rightarrow> tracker" where
  "tracking key =
     \<lparr>editedLongLink = \<lparr>capacity = 1000, entries = [(key, ascii ''9'')]\<rparr>,
      reply_text = [ascii ''9'' \<mapsto> ascii ''shortened'']\<rparr>"

definition tracking_deleted :: "jsstring \<Rightarrow> tracker" where
  "tracking_deleted key =
     \<lparr>editedLongLink = \<lparr>capacity = 1000, entries = [(key, ascii ''9'')]\<rparr>,
      reply_text = Map.empty\<rparr>"

section \<open>Evaluating the model on concrete inputs\<close>

text \<open>
  The definitions to unfold when a built-in or a function of the repository is run on a
  concrete input, and the values of the sample inputs.
\<close>

lemmas url_eval = URLSearchParams_def utf8_encode_def form_decode_def hex_value_def
  utf16_encode_def is_surrogate_def utf8_lead_def utf8_start_def ascii_def

lemmas number_eval = Number_def trim_def is_white_space_def non_decimal_def
  unsigned_decimal_def is_digit_def digit_value_def digits_value_def exponent_part_def

lemmas selection_eval = getSelectionFromQuery_def getPosFromPGURLParam_def js_sort_def
  by_line_def js_sub_def js_gt_def num_def

lemmas table_eval = cumulativeLineLengths_def js_reduce_def lineLengths_def js_split_def
  push_line_def NL_def

lemma rx_repeat_numeral:
  "rx_repeat (numeral k) f st =
     concat (map (\<lambda>st'. if length (snd st') < length (snd st)
                        then rx_repeat (pred_numeral k) f st' else [])
                 (f st)) @ [st]"
  by (simp add: numeral_eq_Suc)

lemma replicate_numeral:
  "replicate (numeral k) x = x # replicate (pred_numeral k) x"
  by (simp add: numeral_eq_Suc)

lemmas regex_eval = RegExp_exec_def CODEBLOCK_REGEX_def PLAYGROUND_REGEX_def query_param_def
  Opt_def Plus_def Seqs_def is_word_def is_white_space_def match_at_def
  rx_repeat_numeral replicate_numeral CODEBLOCK_def NL_def BACKTICK_def ascii_def

lemma two_lines_length: "length two_lines = 5"
  by (simp add: two_lines_def ascii_def)

lemma two_lines_table: "cumulativeLineLengths two_lines = [num 0, num 3, num 6]"
  by (simp add: two_lines_def table_eval ascii_def num_def)

lemma exec_fenced_x:
  "RegExp_exec CODEBLOCK_REGEX (fenced ''x'') = Some [Some (fenced ''x''), Some (ascii ''x'')]"
  by (simp add: fenced_def regex_eval)

lemma exec_fenced_y:
  "RegExp_exec CODEBLOCK_REGEX (fenced ''y'') = Some [Some (fenced ''y''), Some (ascii ''y'')]"
  by (simp add: fenced_def regex_eval)

lemma exec_hello:
  "RegExp_exec CODEBLOCK_REGEX (ascii ''hello'') = None"
  "RegExp_exec PLAYGROUND_REGEX (ascii ''hello'') = None"
  by (simp_all add: regex_eval)

lemma exec_link:
  "RegExp_exec PLAYGROUND_REGEX sample_link
     = Some [Some sample_link, Some [], Some (ascii ''abc'')]"
  "RegExp_exec CODEBLOCK_REGEX sample_link = None"
  by (simp_all add: sample_link_def regex_eval)

lemma sample_bodies: "ascii ''x'' \<noteq> []" "ascii ''y'' \<noteq> []"
  by (simp_all add: ascii_def)

section \<open>Properties of the line-offset table\<close>

lemma arr_get_num: "arr_get xs (num i) = (if i < length xs then Some (xs ! i) else None)"
  by (simp add: num_def)

lemma js_add_num: "js_add (num a) (num b) = num (a + b)"
  by (simp add: num_def)

lemma js_le_num: "js_le (num a) (num b) = (a \<le> b)"
  by (auto simp: num_def)

lemma js_lt_num: "js_lt (num a) (num b) = (a < b)"
  by (simp add: num_def)

lemma reduce_push_line:
  "acc \<noteq> [] \<Longrightarrow> i = length acc - 1 \<Longrightarrow> last acc = num k \<Longrightarrow>
   reduce_from push_line i (map num ns) acc = acc @ map num (offsets_from k ns)"
proof (induction ns arbitrary: acc i k)
  case Nil
  then show ?case by simp
next
  case (Cons n ns)
  have step: "push_line acc (num n) i = acc @ [num (n + k + 1)]"
    using Cons.prems by (simp add: push_line_def arr_get_num last_conv_nth js_add_num)
  have "reduce_from push_line (Suc i) (map num ns) (acc @ [num (n + k + 1)])
        = (acc @ [num (n + k + 1)]) @ map num (offsets_from (n + k + 1) ns)"
    using Cons.prems by (intro Cons.IH) auto
  then show ?case by (simp add: step)
qed

lemma cumulativeLineLengths_eq:
  "cumulativeLineLengths unzipped = map num (line_offsets unzipped)"
proof -
  have "lineLengths unzipped = map num (map length (js_split NL unzipped))"
    by (simp add: lineLengths_def)
  then show ?thesis
    using reduce_push_line [of "[num 0]" 0 0 "map length (js_split NL unzipped)"]
    by (simp add: cumulativeLineLengths_def js_reduce_def line_offsets_def)
qed

lemma offsets_from_increasing: "sorted_wrt (<) (k # offsets_from k ns)"
proof (induction ns arbitrary: k)
  case Nil
  then show ?case by simp
next
  case (Cons n ns)
  have "sorted_wrt (<) ((n + k + 1) # offsets_from (n + k + 1) ns)"
    by (rule Cons.IH)
  then show ?case by fastforce
qed

lemma offsets_from_last:
  "last (k # offsets_from k ns) = k + sum_list ns + length ns"
  by (induction ns arbitrary: k) auto

lemma split_from_total:
  "sum_list (map length (split_from sep cur s)) + length (split_from sep cur s)
   = length cur + length s + 1"
  by (induction s arbitrary: cur) auto

lemma line_offsets_last: "last (line_offsets unzipped) = length unzipped + 1"
proof -
  have "last (line_offsets unzipped)
        = sum_list (map length (js_split NL unzipped)) + length (js_split NL unzipped)"
    unfolding line_offsets_def offsets_from_last by simp
  then show ?thesis
    using split_from_total [of NL "[]" unzipped] by (simp add: js_split_def)
qed

lemma line_offsets_increasing: "sorted_wrt (<) (line_offsets unzipped)"
  unfolding line_offsets_def by (rule offsets_from_increasing)

lemma line_offsets_length:
  "length (line_offsets unzipped) = length (js_split NL unzipped) + 1"
proof -
  have "length (offsets_from k ns) = length ns" for k ns
    by (induction ns arbitrary: k) auto
  then show ?thesis by (simp add: line_offsets_def)
qed

text \<open>
  Claim C1, as stated: for every text the table is non-decreasing and its final entry
  equals the length of the text. The second half fails: \<open>split\<close> returns one more
  line than the text has newlines, and the reducer adds one for every line, so the final
  entry is the length of the text plus one. For the two-line text of five code units
  below the table is 0, 3, 6.
\<close>

theorem C1_final_entry_counterexample:
  "cumulativeLineLengths (ascii (''ab'' @ [CHR 0x0A] @ ''cd'')) = [num 0, num 3, num 6]
   \<and> last (cumulativeLineLengths (ascii (''ab'' @ [CHR 0x0A] @ ''cd'')))
       \<noteq> num (length (ascii (''ab'' @ [CHR 0x0A] @ ''cd'')))"
  by (simp add: cumulativeLineLengths_def js_reduce_def lineLengths_def js_split_def
      push_line_def ascii_def NL_def num_def)

text \<open>
  Claim C1, amended: for every text the table is non-decreasing under the language's
  \<open><=\<close> (it is strictly increasing), it has one entry more than the text has lines, and
  its final entry equals the length of the text plus one.
\<close>

theorem C1_line_offset_table:
  "sorted_wrt js_le (cumulativeLineLengths unzipped)
   \<and> length (cumulativeLineLengths unzipped) = length (js_split NL unzipped) + 1
   \<and> last (cumulativeLineLengths unzipped) = num (length unzipped + 1)"
proof -
  have inc: "sorted_wrt (\<lambda>a b. a \<le> b) (line_offsets unzipped)"
    by (rule sorted_wrt_mono_rel [OF _ line_offsets_increasing]) simp
  have ne: "line_offsets unzipped \<noteq> []"
    by (simp add: line_offsets_def)
  have "sorted_wrt js_le (map num (line_offsets unzipped))"
    using inc by (simp add: sorted_wrt_map js_le_num)
  moreover have "last (map num (line_offsets unzipped)) = num (length unzipped + 1)"
    using ne by (simp add: last_map line_offsets_last)
  ultimately show ?thesis
    by (simp add: cumulativeLineLengths_eq line_offsets_length)
qed

section \<open>Properties of the renderer\<close>

lemma js_slice_num:
  "js_slice s (Some (num a)) (Some (num b)) = take (min b (length s) - a) (drop a s)"
proof (cases "a \<le> length s")
  case True
  then show ?thesis by (simp add: js_slice_def num_def min_def)
next
  case False
  then show ?thesis by (simp add: js_slice_def num_def)
qed

lemma adjacent_backticks_nth:
  "adjacent_backticks s \<longleftrightarrow>
   (\<exists>i. Suc i < length s \<and> s ! i = BACKTICK \<and> s ! Suc i = BACKTICK)"
proof (induction s rule: adjacent_backticks.induct)
  case (1 c d cs)
  have "(\<exists>i. Suc i < length (c # d # cs) \<and> (c # d # cs) ! i = BACKTICK
            \<and> (c # d # cs) ! Suc i = BACKTICK)
        \<longleftrightarrow> (c = BACKTICK \<and> d = BACKTICK)
            \<or> (\<exists>i. Suc i < length (d # cs) \<and> (d # cs) ! i = BACKTICK
                   \<and> (d # cs) ! Suc i = BACKTICK)"
    (is "?L \<longleftrightarrow> ?A \<or> ?R")
  proof
    assume ?L
    then obtain i where i: "Suc i < length (c # d # cs)" "(c # d # cs) ! i = BACKTICK"
      "(c # d # cs) ! Suc i = BACKTICK" by blast
    show "?A \<or> ?R"
    proof (cases i)
      case 0
      with i show ?thesis by simp
    next
      case (Suc j)
      with i have "Suc j < length (d # cs) \<and> (d # cs) ! j = BACKTICK
        \<and> (d # cs) ! Suc j = BACKTICK" by simp
      then show ?thesis by blast
    qed
  next
    assume "?A \<or> ?R"
    then show ?L
    proof
      assume ?A
      then have "Suc 0 < length (c # d # cs) \<and> (c # d # cs) ! 0 = BACKTICK
        \<and> (c # d # cs) ! Suc 0 = BACKTICK" by simp
      then show ?L by blast
    next
      assume ?R
      then obtain j where "Suc j < length (d # cs)" "(d # cs) ! j = BACKTICK"
        "(d # cs) ! Suc j = BACKTICK" by blast
      then have "Suc (Suc j) < length (c # d # cs) \<and> (c # d # cs) ! Suc j = BACKTICK
        \<and> (c # d # cs) ! Suc (Suc j) = BACKTICK" by simp
      then show ?L by blast
    qed
  qed
  with 1 show ?case by simp
qed simp_all

lemma escapeCode_hd: "escapeCode (c # cs) = c # tl (escapeCode (c # cs))"
  by (cases cs) auto

lemma escapeCode_not_adjacent: "\<not> adjacent_backticks (escapeCode code)"
proof (induction code rule: escapeCode.induct)
  case (1 c d cs)
  obtain r where r: "escapeCode (d # cs) = d # r"
    using escapeCode_hd [of d cs] by blast
  with 1 show ?case by (auto simp: ZWSP_def BACKTICK_def)
qed simp_all

lemma escapeCode_strip:
  "ZWSP \<notin> set code \<Longrightarrow> filter (\<lambda>c. c \<noteq> ZWSP) (escapeCode code) = code"
  by (induction code rule: escapeCode.induct) (auto simp: ZWSP_def BACKTICK_def)

lemma not_adjacent_take:
  "\<not> adjacent_backticks s \<Longrightarrow> \<not> adjacent_backticks (take n s)"
  unfolding adjacent_backticks_nth by (auto simp: nth_take) 

lemma not_adjacent_snoc:
  assumes "\<not> adjacent_backticks s" and "c \<noteq> BACKTICK"
  shows "\<not> adjacent_backticks (s @ [c])"
proof
  assume "adjacent_backticks (s @ [c])"
  then obtain i where i: "Suc i < length (s @ [c])" "(s @ [c]) ! i = BACKTICK"
    "(s @ [c]) ! Suc i = BACKTICK" unfolding adjacent_backticks_nth by blast
  show False
  proof (cases "Suc i < length s")
    case True
    with i have "s ! i = BACKTICK \<and> s ! Suc i = BACKTICK" by (simp add: nth_append)
    with True assms(1) show False unfolding adjacent_backticks_nth by blast
  next
    case False
    with i have "Suc i = length s" by simp
    with i(3) assms(2) show False by (simp add: nth_append)
  qed
qed

lemma truncated_not_adjacent:
  "\<not> adjacent_backticks (truncated (escapeCode code))"
  by (simp add: truncated_def js_slice_num not_adjacent_snoc not_adjacent_take
      escapeCode_not_adjacent ELLIPSIS_def BACKTICK_def)

lemma truncated_length: "length (truncated escaped) \<le> MAX_CODE_LENGTH"
  by (simp add: truncated_def js_slice_num MAX_CODE_LENGTH_def DISCORD_MAX_LENGTH_def
      CODEBLOCK_def ascii_def)

lemma fence_at_nth:
  "fence_at s i \<longleftrightarrow> i + 3 \<le> length s \<and> s ! i = BACKTICK \<and> s ! (i + 1) = BACKTICK \<and> s ! (i + 2) = BACKTICK"
proof
  assume f: "fence_at s i"
  then have len: "length (take 3 (drop i s)) = 3" by (simp add: fence_at_def CODEBLOCK_def)
  then have b: "i + 3 \<le> length s" by simp
  have "\<forall>k<3. take 3 (drop i s) ! k = s ! (i + k)" using b by simp
  moreover have "\<forall>k<3. take 3 (drop i s) ! k = BACKTICK"
    using f by (auto simp: fence_at_def CODEBLOCK_def nth_Cons')
  ultimately have k: "k < 3 \<Longrightarrow> s ! (i + k) = BACKTICK" for k by metis
  have "s ! (i + 0) = BACKTICK \<and> s ! (i + 1) = BACKTICK \<and> s ! (i + 2) = BACKTICK"
    by (intro conjI k) simp_all
  with b show "i + 3 \<le> length s \<and> s ! i = BACKTICK \<and> s ! (i + 1) = BACKTICK \<and> s ! (i + 2) = BACKTICK"
    by simp
next
  assume a: "i + 3 \<le> length s \<and> s ! i = BACKTICK \<and> s ! (i + 1) = BACKTICK \<and> s ! (i + 2) = BACKTICK"
  then have "length (take 3 (drop i s)) = 3" by (auto simp: min_def)
  moreover have "\<forall>k<3. take 3 (drop i s) ! k = CODEBLOCK ! k"
  proof (intro allI impI)
    fix k :: nat assume "k < 3"
    then have "k = 0 \<or> k = 1 \<or> k = 2" by arith
    with a show "take 3 (drop i s) ! k = CODEBLOCK ! k"
      by (auto simp: CODEBLOCK_def)
  qed
  ultimately show "fence_at s i"
    unfolding fence_at_def by (intro nth_equalityI) (auto simp: CODEBLOCK_def)
qed

lemma fence_in_block:
  assumes "\<not> adjacent_backticks body" and "fence_at (pre @ body @ post) i" and "length pre \<le> i"
  shows "length pre + length body \<le> i + 1"
proof (rule ccontr)
  assume "\<not> length pre + length body \<le> i + 1"
  then have lt: "Suc (i - length pre) < length body" using assms(3) by arith
  from assms(2) have "(pre @ body @ post) ! i = BACKTICK" "(pre @ body @ post) ! (i + 1) = BACKTICK"
    by (simp_all add: fence_at_nth)
  with lt assms(3) have "body ! (i - length pre) = BACKTICK \<and> body ! Suc (i - length pre) = BACKTICK"
    by (simp add: nth_append Suc_diff_le)
  with lt assms(1) show False unfolding adjacent_backticks_nth by blast
qed

lemma fence_in_opening:
  assumes "fence_at (CODEBLOCK @ ascii ''ts'' @ [NL] @ rest) i" and "i < 6"
  shows "i = 0"
proof -
  from assms(2) have "i = 0 \<or> i = 1 \<or> i = 2 \<or> i = 3 \<or> i = 4 \<or> i = 5" by arith
  with assms(1) show ?thesis
    by (auto simp: fence_at_nth CODEBLOCK_def ascii_def NL_def BACKTICK_def nth_append nth_Cons')
qed

lemma escapeCode_last: "code \<noteq> [] \<Longrightarrow> escapeCode code \<noteq> [] \<and> last (escapeCode code) = last code"
  by (induction code rule: escapeCode.induct) auto

lemma escapeCode_Nil: "escapeCode code = [] \<longleftrightarrow> code = []"
  by (cases code rule: escapeCode.cases) auto

lemma makeCodeBlock_length: "length (makeCodeBlock code) = 9 + length (truncated (escapeCode code))"
  by (simp add: makeCodeBlock_def CODEBLOCK_def ascii_def)

text \<open>
  Claim C7: the rendered block is at most \<open>DISCORD_MAX_LENGTH\<close> long, and a run of
  two or more backticks in the snippet never ends the enclosing fence early. The comment
  above \<open>escapeCode\<close> states the aim, that users cannot escape the code block, and the
  code breaks it at the end of the snippet: nothing stands between the snippet and the
  closing fence, and a renderer closes the block at the first fence after the opening
  one. For the snippet of two backticks the output is the opening fence, backtick,
  U+200B, backtick, closing fence: twelve code units, the closing fence at position 9,
  and a fence already starts at position 8, made of the snippet's last backtick and two
  of the closing fence.
\<close>

theorem C7_trailing_backtick_joins_closing_fence:
  "makeCodeBlock [BACKTICK, BACKTICK]
     = CODEBLOCK @ ascii ''ts'' @ [NL] @ [BACKTICK, ZWSP, BACKTICK] @ CODEBLOCK
   \<and> fence_at (makeCodeBlock [BACKTICK, BACKTICK]) 8
   \<and> 8 + length CODEBLOCK < length (makeCodeBlock [BACKTICK, BACKTICK])"
  by (simp add: makeCodeBlock_def truncated_def MAX_CODE_LENGTH_def DISCORD_MAX_LENGTH_def
      fence_at_def CODEBLOCK_def ascii_def)

text \<open>
  What the renderer does keep: the block is at most \<open>DISCORD_MAX_LENGTH\<close> (2048) long,
  the escaped and truncated snippet inside it has no two adjacent backticks, and the one
  place where a fence starts besides the opening and the closing fence is one position
  before the closing fence, for a snippet that ends in a backtick and was not truncated.
\<close>

lemma makeCodeBlock_fences:
  "length (makeCodeBlock code) \<le> DISCORD_MAX_LENGTH
   \<and> \<not> adjacent_backticks (truncated (escapeCode code))
   \<and> (\<forall>i. fence_at (makeCodeBlock code) i \<longrightarrow>
          i = 0 \<or> i + 3 = length (makeCodeBlock code)
          \<or> (i + 4 = length (makeCodeBlock code) \<and> code \<noteq> [] \<and> last code = BACKTICK
              \<and> length (escapeCode code) \<le> MAX_CODE_LENGTH))"
proof (intro conjI allI impI)
  show "length (makeCodeBlock code) \<le> DISCORD_MAX_LENGTH"
    using truncated_length [of "escapeCode code"]
    by (simp add: makeCodeBlock_length MAX_CODE_LENGTH_def DISCORD_MAX_LENGTH_def
        CODEBLOCK_def ascii_def)
  show "\<not> adjacent_backticks (truncated (escapeCode code))"
    by (rule truncated_not_adjacent)
  fix i
  assume f: "fence_at (makeCodeBlock code) i"
  define body where "body = truncated (escapeCode code)"
  define pre where "pre = CODEBLOCK @ ascii ''ts'' @ [NL]"
  have out: "makeCodeBlock code = pre @ body @ CODEBLOCK"
    by (simp add: makeCodeBlock_def body_def pre_def)
  have pre: "length pre = 6" by (simp add: pre_def CODEBLOCK_def ascii_def)
  have len: "length (makeCodeBlock code) = 9 + length body"
    by (simp add: out pre CODEBLOCK_def)
  have clean: "\<not> adjacent_backticks body"
    unfolding body_def by (rule truncated_not_adjacent)
  show "i = 0 \<or> i + 3 = length (makeCodeBlock code)
          \<or> (i + 4 = length (makeCodeBlock code) \<and> code \<noteq> [] \<and> last code = BACKTICK
              \<and> length (escapeCode code) \<le> MAX_CODE_LENGTH)"
  proof (cases "i < 6")
    case True
    with f have "i = 0"
      using fence_in_opening [of "body @ CODEBLOCK" i] by (simp add: out pre_def)
    then show ?thesis by simp
  next
    case False
    then have "length pre \<le> i" unfolding pre by simp
    moreover have "fence_at (pre @ body @ CODEBLOCK) i" using f unfolding out .
    ultimately have "length pre + length body \<le> i + 1"
      by (rule fence_in_block [OF clean, rotated])
    moreover have "i + 3 \<le> length (makeCodeBlock code)"
      using f by (simp add: fence_at_nth)
    ultimately consider "i + 3 = length (makeCodeBlock code)" | "i + 4 = length (makeCodeBlock code)"
      using len pre by arith
    then show ?thesis
    proof cases
      case 1
      then show ?thesis by simp
    next
      case 2
      with len False have ne: "body \<noteq> []" by auto
      with 2 len pre have i: "i = length pre + (length body - 1)" by (cases body) auto
      have "(pre @ body @ CODEBLOCK) ! i = BACKTICK"
        using f by (simp add: fence_at_nth out)
      then have "body ! (length body - 1) = BACKTICK"
        unfolding i using ne by (simp add: nth_append)
      then have lastb: "last body = BACKTICK" using ne by (simp add: last_conv_nth)
      have short: "length (escapeCode code) \<le> MAX_CODE_LENGTH"
      proof (rule ccontr)
        assume "\<not> length (escapeCode code) \<le> MAX_CODE_LENGTH"
        then have "last body = ELLIPSIS" by (simp add: truncated_def body_def)
        with lastb show False by (simp add: ELLIPSIS_def BACKTICK_def)
      qed
      then have body: "body = escapeCode code" by (simp add: truncated_def body_def)
      with ne have "code \<noteq> []" by (simp add: escapeCode_Nil)
      moreover from this have "last code = BACKTICK"
        using lastb body escapeCode_last [of code] by simp
      ultimately show ?thesis using 2 short by simp
    qed
  qed
qed

text \<open>
  Claim C10: for every input without U+200B, the output of \<open>escapeCode\<close> has no two
  adjacent backticks, and deleting every U+200B from it gives the input back.
\<close>

theorem C10_escapeCode_lossless:
  "ZWSP \<notin> set code \<Longrightarrow>
   \<not> adjacent_backticks (escapeCode code)
   \<and> filter (\<lambda>c. c \<noteq> ZWSP) (escapeCode code) = code"
  by (simp add: escapeCode_not_adjacent escapeCode_strip)

text \<open>Claim C10, witness: three backticks followed by a letter.\<close>

theorem C10_escapeCode_lossless_witness:
  "ZWSP \<notin> set (BACKTICK # BACKTICK # BACKTICK # ascii ''a'')
   \<and> escapeCode (BACKTICK # BACKTICK # BACKTICK # ascii ''a'')
       = BACKTICK # ZWSP # BACKTICK # ZWSP # BACKTICK # ascii ''a''
   \<and> \<not> adjacent_backticks (escapeCode (BACKTICK # BACKTICK # BACKTICK # ascii ''a''))
   \<and> filter (\<lambda>c. c \<noteq> ZWSP) (escapeCode (BACKTICK # BACKTICK # BACKTICK # ascii ''a''))
       = BACKTICK # BACKTICK # BACKTICK # ascii ''a''"
proof -
  have z: "ZWSP \<notin> set (BACKTICK # BACKTICK # BACKTICK # ascii ''a'')"
    by (simp add: ZWSP_def BACKTICK_def ascii_def)
  have e: "escapeCode (BACKTICK # BACKTICK # BACKTICK # ascii ''a'')
       = BACKTICK # ZWSP # BACKTICK # ZWSP # BACKTICK # ascii ''a''"
    by (simp add: BACKTICK_def ascii_def)
  from C10_escapeCode_lossless [OF z] z e show ?thesis by blast
qed

section \<open>Properties of the selection\<close>

text \<open>
  What \<open>getPosFromPGURLParam\<close> returns: the comparison with NaN never holds, so the
  only test left is \<open>n < 1\<close>, which is false for NaN.
\<close>

lemma getPosFromPGURLParam_cases:
  "getPosFromPGURLParam params name =
     (case params_get params name of
        None \<Rightarrow> None
      | Some p \<Rightarrow> if js_lt (Number p) (num 1) then None else Some (js_sub (Number p) (num 1)))"
  by (cases "Number (the (params_get params name))")
     (auto simp: getPosFromPGURLParam_def Let_def split: option.splits)

text \<open>
  Claim C2: an absent, non-numeric or smaller-than-1 parameter is decoded as unset, a
  numeric \<open>n\<close> of at least 1 as \<open>n - 1\<close>. The code breaks it for a non-numeric
  value: for the query \<open>pln=abc\<close> the parameter is present, \<open>Number\<close> gives NaN,
  \<open>n === NaN\<close> is false and so is \<open>n < 1\<close>, and the function returns \<open>NaN - 1\<close>,
  a number, not \<open>undefined\<close>.
\<close>

theorem C2_non_numeric_decodes_to_NaN:
  "params_get (URLSearchParams (ascii ''pln=abc'')) (ascii ''pln'') = Some (ascii ''abc'')
   \<and> Number (ascii ''abc'') = NaN
   \<and> getPosFromPGURLParam (URLSearchParams (ascii ''pln=abc'')) (ascii ''pln'') = Some NaN"
  by (simp add: url_eval number_eval selection_eval)

text \<open>
  Sorting an array of two elements: they are swapped exactly when the comparator is
  positive on them, so the sorted array has both and the two reads in
  \<open>getSelectionFromQuery\<close> are inside it.
\<close>

lemma js_sort_two:
  "js_sort cmp [a, b] = (if js_gt (cmp a b) (num 0) then [b, a] else [a, b])"
  by (simp add: js_sort_def)

text \<open>
  The two points in either order give the same sorted pair when the line of one is
  below the line of the other (an unset line counting as 0).
\<close>

lemma sort_by_line_swap:
  assumes "js_lt (ToNumber (nullish (line a) (Some (num 0))))
                 (ToNumber (nullish (line b) (Some (num 0))))"
  shows "js_sort by_line [a, b] = [a, b] \<and> js_sort by_line [b, a] = [a, b]"
proof -
  define x where "x = ToNumber (nullish (line a) (Some (num 0)))"
  define y where "y = ToNumber (nullish (line b) (Some (num 0)))"
  from assms have "js_lt x y" by (simp add: x_def y_def)
  then have "\<not> js_gt (js_sub x y) (num 0) \<and> js_gt (js_sub y x) (num 0)"
    by (cases x; cases y) (auto simp: js_gt_def js_sub_def num_def)
  then show ?thesis
    by (simp add: js_sort_def by_line_def x_def y_def)
qed

text \<open>
  Claim C5: swapping which of the two points is the cursor and which the anchor gives
  the identical selection. The code breaks it when both points are on the same line:
  the comparator looks at lines only, the sort is stable, and the cursor stays first.
  With the cursor at line 1, column 5 and the anchor at line 1, column 2 the selection
  starts at column 4 and ends at column 1; with the two swapped it starts at column 1
  and ends at column 4.
\<close>

theorem C5_same_line_points_keep_source_order:
  "getSelectionFromQuery (ascii ''?pln=1&pc=5&ssl=1&ssc=2'')
     = \<lparr>startLine = Some (num 0), startColumn = Some (num 4),
        endLine = Some (num 0), endColumn = Some (num 1)\<rparr>
   \<and> getSelectionFromQuery (ascii ''?pln=1&pc=2&ssl=1&ssc=5'')
     = \<lparr>startLine = Some (num 0), startColumn = Some (num 1),
        endLine = Some (num 0), endColumn = Some (num 4)\<rparr>
   \<and> getSelectionFromQuery (ascii ''?pln=1&pc=5&ssl=1&ssc=2'')
       \<noteq> getSelectionFromQuery (ascii ''?pln=1&pc=2&ssl=1&ssc=5'')"
  by (simp add: url_eval number_eval selection_eval)

section \<open>Properties of the range and the snippet\<close>

lemmas range_eval = startChar_def cutoff_def endChar_def prettyEnd_def maxEnd_def
  extract_text_def js_slice_def DEFAULT_EMBED_LENGTH_def MAX_EMBED_LENGTH_def

text \<open>
  Claim C4: whenever \<open>endLine\<close> is set, 0 included, \<open>endChar\<close> is the table entry at
  \<open>endLine\<close>. The code breaks it at \<open>endLine = 0\<close>: the test is the truth value of
  \<open>endLine\<close>, and 0 is false. For the two-line text and the query \<open>?pln=1&ssl=1\<close> both
  points are on the first line, \<open>endLine\<close> is 0, the table entry at 0 is 0, and
  \<open>endChar\<close> is 6, the first entry above the cutoff.
\<close>

theorem C4_endLine_zero_takes_the_fallback:
  "getSelectionFromQuery (ascii ''?pln=1&ssl=1'')
     = \<lparr>startLine = Some (num 0), startColumn = None, endLine = Some (num 0), endColumn = None\<rparr>
   \<and> js_index (cumulativeLineLengths two_lines)
        (endLine (getSelectionFromQuery (ascii ''?pln=1&ssl=1''))) = Some (num 0)
   \<and> endChar (cumulativeLineLengths two_lines)
         (cutoff (startChar (cumulativeLineLengths two_lines)
                    (getSelectionFromQuery (ascii ''?pln=1&ssl=1''))) two_lines)
         (getSelectionFromQuery (ascii ''?pln=1&ssl=1''))
       = Some (num 6)"
proof -
  have sel: "getSelectionFromQuery (ascii ''?pln=1&ssl=1'')
     = \<lparr>startLine = Some (num 0), startColumn = None, endLine = Some (num 0), endColumn = None\<rparr>"
    by (simp add: url_eval number_eval selection_eval)
  show ?thesis
    unfolding sel two_lines_table
    by (simp add: range_eval two_lines_length js_gt_def num_def)
qed

lemma table_entry:
  "x \<in> set (cumulativeLineLengths unzipped) \<Longrightarrow> \<exists>k. x = num k"
  by (auto simp: cumulativeLineLengths_eq)

lemma arr_get_in_set: "arr_get xs i = Some x \<Longrightarrow> x \<in> set xs"
  by (cases i) (auto split: if_splits)

lemma js_index_in_set: "js_index xs i = Some x \<Longrightarrow> x \<in> set xs"
  by (cases i) (auto dest: arr_get_in_set)

lemma js_find_in_set: "js_find p xs = Some x \<Longrightarrow> x \<in> set xs"
  by (induction xs) (auto split: if_splits)

lemma startChar_entry:
  "startChar (cumulativeLineLengths unzipped) sel = Some s \<Longrightarrow> \<exists>n. s = num n"
  unfolding startChar_def by (blast dest: js_index_in_set table_entry)

lemma endChar_entry:
  "endChar (cumulativeLineLengths unzipped) limit sel = Some e \<Longrightarrow> \<exists>m. e = num m"
proof -
  assume e: "endChar (cumulativeLineLengths unzipped) limit sel = Some e"
  have "e \<in> set (cumulativeLineLengths unzipped)"
  proof (cases "truthy (endLine sel)")
    case True
    with e show ?thesis by (auto simp: endChar_def dest: js_index_in_set)
  next
    case False
    with e show ?thesis
      by (cases "js_find (\<lambda>len. js_gt len limit) (cumulativeLineLengths unzipped)")
         (auto simp: endChar_def dest: js_find_in_set arr_get_in_set)
  qed
  then show ?thesis by (rule table_entry)
qed

lemma prettyEnd_num:
  "prettyEnd pretty unzipped (Some (num m))
     = Fin (of_int (int (length pretty) - (int (length unzipped) - int m)))"
  by (simp add: prettyEnd_def js_sub_def num_def)

lemma prettyEnd_undefined: "prettyEnd pretty unzipped None = NaN"
  by (simp add: prettyEnd_def js_sub_def num_def)

lemma maxEnd_int:
  "maxEnd (Fin (of_int z)) (Some (num n))
     = Fin (of_int (min z (int (n + MAX_EMBED_LENGTH))))"
  by (simp add: maxEnd_def num_def min_def)

lemma maxEnd_NaN: "maxEnd NaN sc = NaN" and maxEnd_undefined: "maxEnd pe None = NaN"
  by (cases pe; simp add: maxEnd_def)+

lemma slice_to_NaN: "js_slice s start (Some NaN) = []"
  by (simp add: js_slice_def)

lemma slice_int:
  assumes "0 \<le> w"
  shows "length (js_slice s (Some (num n)) (Some (Fin (of_int w)))) \<le> nat w - n"
proof -
  have "Fin (of_int w) = num (nat w)" using assms by (simp add: num_def)
  then show ?thesis by (simp add: js_slice_num)
qed

lemma line_offsets_bound: "x \<in> set (line_offsets unzipped) \<Longrightarrow> x \<le> length unzipped + 1"
proof -
  assume x: "x \<in> set (line_offsets unzipped)"
  have ne: "line_offsets unzipped \<noteq> []" by (simp add: line_offsets_def)
  have s: "sorted (line_offsets unzipped)"
    using line_offsets_increasing [of unzipped] by (simp add: strict_sorted_iff)
  from x obtain i where i: "i < length (line_offsets unzipped)" "x = line_offsets unzipped ! i"
    by (auto simp: in_set_conv_nth)
  then have "x \<le> line_offsets unzipped ! (length (line_offsets unzipped) - 1)"
    using s by (auto intro!: sorted_nth_mono)
  then show ?thesis using ne line_offsets_last [of unzipped] by (simp add: last_conv_nth)
qed

lemma line_offsets_mono:
  "i \<le> j \<Longrightarrow> j < length (line_offsets unzipped) \<Longrightarrow>
   line_offsets unzipped ! i \<le> line_offsets unzipped ! j"
  using line_offsets_increasing [of unzipped]
  by (simp add: strict_sorted_iff sorted_nth_mono)

lemma js_slice_head: "js_slice s (Some (num 0)) (Some (num n)) = take n s"
  by (simp add: js_slice_num min_def)

lemma js_slice_tail: "js_slice s (Some (num m)) None = drop m s"
  by (cases "m \<le> length s") (simp_all add: js_slice_def num_def min_def)

lemma js_find_Some: "js_find p xs = Some x \<Longrightarrow> p x"
  by (induction xs) (auto split: if_splits)

lemma js_find_None: "js_find p xs = None \<Longrightarrow> x \<in> set xs \<Longrightarrow> \<not> p x"
  by (induction xs) (auto split: if_splits)

lemma Math_min_num: "Math_min (num a) (num b) = num (min a b)"
  by (simp add: num_def min_def)

lemma js_gt_num: "js_gt (num a) (num b) = (b < a)"
  by (simp add: js_gt_def num_def)

lemma cutoff_num:
  "cutoff (Some (num n)) unzipped = num (min (n + DEFAULT_EMBED_LENGTH) (length unzipped))"
  by (simp add: cutoff_def js_add_num Math_min_num)

text \<open>A start line inside the table gives the table entry of that line.\<close>

lemma startChar_line:
  assumes "nullish (startLine sel) (Some (num 0)) = Some (num i)"
    and "i < length (cumulativeLineLengths unzipped)"
  shows "startChar (cumulativeLineLengths unzipped) sel = Some (num (line_offsets unzipped ! i))"
  using assms by (simp add: startChar_def arr_get_num cumulativeLineLengths_eq)

text \<open>
  The fallback of \<open>endChar\<close> always finds an entry: the last entry of the table is above
  every cutoff. The entry it finds is not below \<open>startChar\<close>.
\<close>

lemma endChar_fallback:
  assumes "\<not> truthy (endLine sel)" and "n \<le> length unzipped + 1"
  shows "\<exists>m. endChar (cumulativeLineLengths unzipped) (cutoff (Some (num n)) unzipped) sel
               = Some (num m) \<and> n \<le> m \<and> m \<le> length unzipped + 1"
proof -
  define limit where "limit = min (n + DEFAULT_EMBED_LENGTH) (length unzipped)"
  define p where "p = (\<lambda>len. js_gt len (num limit))"
  have ne: "line_offsets unzipped \<noteq> []" by (simp add: line_offsets_def)
  then have "last (line_offsets unzipped) \<in> set (line_offsets unzipped)" by simp
  then have "num (length unzipped + 1) \<in> set (cumulativeLineLengths unzipped)"
    by (simp add: cumulativeLineLengths_eq line_offsets_last)
  moreover have "p (num (length unzipped + 1))"
    by (simp add: p_def js_gt_num limit_def)
  ultimately have "js_find p (cumulativeLineLengths unzipped) \<noteq> None"
    using js_find_None [of p "cumulativeLineLengths unzipped"] by blast
  then obtain x where x: "js_find p (cumulativeLineLengths unzipped) = Some x" by blast
  then have "x \<in> set (cumulativeLineLengths unzipped)" and px: "p x"
    by (auto dest: js_find_in_set js_find_Some)
  then obtain m where m: "x = num m" "m \<in> set (line_offsets unzipped)"
    by (auto simp: cumulativeLineLengths_eq)
  from px m have "limit < m" by (simp add: p_def js_gt_num)
  with assms(2) have "n \<le> m"
    by (simp add: limit_def DEFAULT_EMBED_LENGTH_def min_def split: if_splits)
  moreover from m(2) have "m \<le> length unzipped + 1" by (rule line_offsets_bound)
  moreover have "endChar (cumulativeLineLengths unzipped) (cutoff (Some (num n)) unzipped) sel
               = Some (num m)"
    using assms(1) x m by (simp add: endChar_def cutoff_num limit_def p_def)
  ultimately show ?thesis by blast
qed

text \<open>
  A formatted text that differs from the original only between the two ends of the
  range: \<open>prettyEnd\<close> is then not negative, and not below \<open>startChar\<close> when \<open>startChar\<close>
  is not above \<open>endChar\<close>.
\<close>

lemma contract_prettyEnd:
  assumes "pretty = js_slice unzipped (Some (num 0)) (Some (num n)) @ mid
                    @ js_slice unzipped (Some (num m)) None"
  shows "0 \<le> int (length pretty) - (int (length unzipped) - int m)"
    and "n \<le> m \<Longrightarrow> m \<le> length unzipped + 1 \<Longrightarrow>
         int n \<le> int (length pretty) - (int (length unzipped) - int m)"
  using assms by (auto simp: js_slice_head js_slice_tail min_def)

text \<open>
  Claim C6, as stated: for every text and selection the snippet is at most
  \<open>MAX_EMBED_LENGTH\<close> long and \<open>startChar <= maxEnd\<close>. The second half fails for a
  selection that ends beyond the text. The query \<open>?ssl=6\<close> gives \<open>endLine\<close> 5; on the
  two-line text the table has three entries, \<open>endChar\<close> is \<open>undefined\<close>, and whatever
  the formatter returns \<open>prettyEnd\<close> and \<open>maxEnd\<close> are NaN, and no number is below or
  equal to NaN.
\<close>

theorem C6_counterexample:
  "getSelectionFromQuery (ascii ''?ssl=6'')
     = \<lparr>startLine = None, startColumn = None, endLine = Some (num 5), endColumn = None\<rparr>
   \<and> (\<forall>pretty.
        let unzipped = two_lines;
            sel = getSelectionFromQuery (ascii ''?ssl=6'');
            cll = cumulativeLineLengths unzipped;
            sc = startChar cll sel;
            ec = endChar cll (cutoff sc unzipped) sel;
            me = maxEnd (prettyEnd pretty unzipped ec) sc
        in sc = Some (num 0) \<and> ec = None \<and> me = NaN \<and> \<not> js_le (ToNumber sc) me)"
proof -
  have sel: "getSelectionFromQuery (ascii ''?ssl=6'')
     = \<lparr>startLine = None, startColumn = None, endLine = Some (num 5), endColumn = None\<rparr>"
    by (simp add: url_eval number_eval selection_eval)
  show ?thesis
    unfolding sel Let_def two_lines_table
    by (simp add: startChar_def endChar_def prettyEnd_def maxEnd_def js_sub_def num_def)
qed

text \<open>
  Claim C6, amended: for every text and selection, and every formatted text that
  differs from the original only between \<open>startChar\<close> and \<open>endChar\<close> (what a range
  formatter returns: the text before the range, the formatted range, the text after
  it), the snippet is at most \<open>MAX_EMBED_LENGTH\<close> (512) long; and when the lines of the
  selection are lines of the table (\<open>startLine\<close>, 0 when unset, and \<open>endLine\<close> when
  set), the first not after the second, \<open>startChar <= maxEnd\<close>, where
  \<open>maxEnd = min(prettyEnd, startChar + MAX_EMBED_LENGTH)\<close>.
\<close>

theorem C6_extract_bounds:
  "(let cll = cumulativeLineLengths unzipped;
        sc = startChar cll sel;
        ec = endChar cll (cutoff sc unzipped) sel;
        me = maxEnd (prettyEnd pretty unzipped ec) sc
    in pretty = js_slice unzipped (Some (num 0)) sc @ mid @ js_slice unzipped ec None \<longrightarrow>
       length (extract_text pretty sc me) \<le> MAX_EMBED_LENGTH
       \<and> (nullish (startLine sel) (Some (num 0)) = Some (num i) \<and> i < length cll
            \<and> (endLine sel = None \<or> endLine sel = Some (num j) \<and> i \<le> j \<and> j < length cll)
          \<longrightarrow> js_le (ToNumber sc) me))"
proof -
  define cll where "cll = cumulativeLineLengths unzipped"
  define sc where "sc = startChar cll sel"
  define ec where "ec = endChar cll (cutoff sc unzipped) sel"
  define pe where "pe = prettyEnd pretty unzipped ec"
  define me where "me = maxEnd pe sc"
  have len: "length (extract_text pretty sc me) \<le> MAX_EMBED_LENGTH"
    if c: "pretty = js_slice unzipped (Some (num 0)) sc @ mid @ js_slice unzipped ec None"
  proof (cases sc)
    case None
    then show ?thesis
      by (simp add: me_def maxEnd_undefined extract_text_def slice_to_NaN)
  next
    case (Some s)
    then obtain n where sc: "sc = Some (num n)"
      using startChar_entry [of unzipped sel s] by (auto simp: sc_def cll_def)
    show ?thesis
    proof (cases ec)
      case None
      then have "pe = NaN" by (simp add: pe_def prettyEnd_undefined)
      then show ?thesis
        by (simp add: me_def maxEnd_NaN extract_text_def slice_to_NaN)
    next
      case (Some e)
      then obtain m where ec: "ec = Some (num m)"
        using endChar_entry [of unzipped "cutoff sc unzipped" sel e] by (auto simp: ec_def cll_def)
      define z where "z = int (length pretty) - (int (length unzipped) - int m)"
      define w where "w = min z (int (n + MAX_EMBED_LENGTH))"
      have pe: "pe = Fin (of_int z)" by (simp add: pe_def ec prettyEnd_num z_def)
      have me: "me = Fin (of_int w)" by (simp add: me_def pe sc maxEnd_int w_def)
      from c have "0 \<le> z" unfolding sc ec z_def by (rule contract_prettyEnd(1))
      then have "0 \<le> w" by (simp add: w_def)
      then have "length (extract_text pretty sc me) \<le> nat w - n"
        unfolding extract_text_def sc me by (rule slice_int)
      also have "\<dots> \<le> MAX_EMBED_LENGTH" by (simp add: w_def)
      finally show ?thesis .
    qed
  qed
  have le: "js_le (ToNumber sc) me"
    if c: "pretty = js_slice unzipped (Some (num 0)) sc @ mid @ js_slice unzipped ec None"
      and s: "nullish (startLine sel) (Some (num 0)) = Some (num i)" "i < length cll"
      and e: "endLine sel = None \<or> endLine sel = Some (num j) \<and> i \<le> j \<and> j < length cll"
  proof -
    define n where "n = line_offsets unzipped ! i"
    have i: "i < length (line_offsets unzipped)"
      using s(2) by (simp add: cll_def cumulativeLineLengths_eq)
    have sc: "sc = Some (num n)"
      using s unfolding sc_def cll_def n_def by (rule startChar_line)
    have n: "n \<le> length unzipped + 1"
      unfolding n_def using i by (intro line_offsets_bound) simp
    have "\<exists>m. ec = Some (num m) \<and> n \<le> m \<and> m \<le> length unzipped + 1"
    proof (cases "truthy (endLine sel)")
      case False
      then show ?thesis
        unfolding ec_def cll_def sc using n by (rule endChar_fallback)
    next
      case True
      with e have j: "endLine sel = Some (num j)" "i \<le> j" "j < length (line_offsets unzipped)"
        by (auto simp: cll_def cumulativeLineLengths_eq)
      then have "ec = Some (num (line_offsets unzipped ! j))"
        using True by (simp add: ec_def cll_def endChar_def arr_get_num cumulativeLineLengths_eq)
      moreover have "n \<le> line_offsets unzipped ! j"
        unfolding n_def using j(2,3) by (rule line_offsets_mono)
      moreover have "line_offsets unzipped ! j \<le> length unzipped + 1"
        using j(3) by (intro line_offsets_bound) simp
      ultimately show ?thesis by blast
    qed
    then obtain m where ec: "ec = Some (num m)" and nm: "n \<le> m" and m: "m \<le> length unzipped + 1"
      by blast
    define z where "z = int (length pretty) - (int (length unzipped) - int m)"
    define w where "w = min z (int (n + MAX_EMBED_LENGTH))"
    have pe: "pe = Fin (of_int z)" by (simp add: pe_def ec prettyEnd_num z_def)
    have me: "me = Fin (of_int w)" by (simp add: me_def pe sc maxEnd_int w_def)
    from c have "int n \<le> z" unfolding sc ec z_def using nm m by (rule contract_prettyEnd(2))
    then have "int n \<le> w" by (simp add: w_def)
    then show ?thesis by (simp add: sc me num_def)
  qed
  from len le show ?thesis
    unfolding Let_def cll_def [symmetric] sc_def [symmetric] ec_def [symmetric]
      pe_def [symmetric] me_def [symmetric]
    by blast
qed

text \<open>
  Claim C6, witness: the two-line text with the selection from line 0 to line 1, and a
  formatter that adds a semicolon to the first line.
\<close>

theorem C6_extract_bounds_witness:
  "(let unzipped = two_lines;
        sel = \<lparr>startLine = Some (num 0), startColumn = None, endLine = Some (num 1), endColumn = None\<rparr>;
        mid = ascii ''ab;'' @ [NL];
        pretty = mid @ ascii ''cd'';
        cll = cumulativeLineLengths unzipped;
        sc = startChar cll sel;
        ec = endChar cll (cutoff sc unzipped) sel;
        me = maxEnd (prettyEnd pretty unzipped ec) sc
    in sc = Some (num 0) \<and> ec = Some (num 3)
       \<and> pretty = js_slice unzipped (Some (num 0)) sc @ mid @ js_slice unzipped ec None
       \<and> nullish (startLine sel) (Some (num 0)) = Some (num 0) \<and> 0 < length cll
       \<and> endLine sel = Some (num 1) \<and> (0::nat) \<le> 1 \<and> 1 < length cll
       \<and> length (extract_text pretty sc me) \<le> MAX_EMBED_LENGTH \<and> js_le (ToNumber sc) me)"
proof -
  let ?sel = "\<lparr>startLine = Some (num 0), startColumn = None, endLine = Some (num 1), endColumn = None\<rparr>"
  let ?mid = "ascii ''ab;'' @ [NL]"
  let ?pretty = "?mid @ ascii ''cd''"
  have "(let unzipped = two_lines;
        sel = ?sel;
        mid = ?mid;
        pretty = ?pretty;
        cll = cumulativeLineLengths unzipped;
        sc = startChar cll sel;
        ec = endChar cll (cutoff sc unzipped) sel
    in sc = Some (num 0) \<and> ec = Some (num 3)
       \<and> pretty = js_slice unzipped (Some (num 0)) sc @ mid @ js_slice unzipped ec None
       \<and> nullish (startLine sel) (Some (num 0)) = Some (num 0) \<and> 0 < length cll
       \<and> endLine sel = Some (num 1) \<and> (0::nat) \<le> 1 \<and> 1 < length cll)"
    unfolding Let_def two_lines_table
    by (simp add: startChar_def endChar_def js_slice_def num_def two_lines_def ascii_def NL_def)
  with C6_extract_bounds [of two_lines ?sel ?pretty ?mid 0 1]
  show ?thesis
    unfolding Let_def by blast
qed

text \<open>
  The bound on the snippet rests on that contract of the formatter; the code has no
  guard of its own. For a formatted text shorter than what follows \<open>endChar\<close> in the
  original (999 code units for a text of 1002 with \<open>endChar\<close> 2), \<open>prettyEnd\<close> is -1,
  \<open>slice\<close> counts a negative end from the end of the text, and the snippet is 998 long.
\<close>

lemma short_formatted_text:
  "(let unzipped = ascii ''a'' @ [NL] @ replicate 1000 0x62;
        sel = \<lparr>startLine = None, startColumn = None, endLine = Some (num 1), endColumn = None\<rparr>;
        pretty = replicate 999 0x62;
        cll = cumulativeLineLengths unzipped;
        sc = startChar cll sel;
        ec = endChar cll (cutoff sc unzipped) sel;
        me = maxEnd (prettyEnd pretty unzipped ec) sc
    in sc = Some (num 0) \<and> ec = Some (num 2) \<and> me = Fin (- 1)
       \<and> length (extract_text pretty sc me) = 998 \<and> \<not> 998 \<le> MAX_EMBED_LENGTH)"
proof -
  define long where "long = ascii ''a'' @ [NL] @ replicate 1000 (0x62 :: 16 word)"
  have len: "length long = 1002" by (simp add: long_def ascii_def)
  have "js_split NL long = [97] # split_from NL [] (replicate 1000 0x62)"
    by (simp add: long_def js_split_def ascii_def NL_def)
  then have "cumulativeLineLengths long
      = num 0 # num (Suc (Suc 0)) # map num (offsets_from (Suc (Suc 0))
          (map length (split_from NL [] (replicate 1000 (0x62 :: 16 word)))))"
    by (simp add: cumulativeLineLengths_eq line_offsets_def)
  moreover have "Suc (Suc 0) = 2" by simp
  ultimately obtain rest where tab: "cumulativeLineLengths long = num 0 # num 2 # rest"
    by metis
  have "(let unzipped = long;
        sel = \<lparr>startLine = None, startColumn = None, endLine = Some (num 1), endColumn = None\<rparr>;
        pretty = replicate 999 0x62;
        cll = cumulativeLineLengths unzipped;
        sc = startChar cll sel;
        ec = endChar cll (cutoff sc unzipped) sel;
        me = maxEnd (prettyEnd pretty unzipped ec) sc
    in sc = Some (num 0) \<and> ec = Some (num 2) \<and> me = Fin (- 1)
       \<and> length (extract_text pretty sc me) = 998 \<and> \<not> 998 \<le> MAX_EMBED_LENGTH)"
    using floor_of_int [of "- 1", where ?'a = rat]
    by (simp add: Let_def tab len startChar_def endChar_def prettyEnd_def maxEnd_def
        extract_text_def js_slice_def js_sub_def num_def MAX_EMBED_LENGTH_def)
  then show ?thesis unfolding long_def .
qed

text \<open>
  How the pieces sit in \<open>createPlaygroundEmbed\<close>: a payload that does not decode to a
  non-empty text gives the embed with the link only; otherwise the description is the
  rendered snippet cut from the formatted text.
\<close>

lemma createPlaygroundEmbed_link_only:
  assumes "decompress (Some code) = None \<or> decompress (Some code) = Some []"
  shows "createPlaygroundEmbed decompress format (matched, query, code) url_arg
         = Inr \<lparr>url = (case url_arg of None \<Rightarrow> matched | Some u \<Rightarrow> u), description = None\<rparr>"
  using assms by (auto simp: createPlaygroundEmbed_def)

lemma createPlaygroundEmbed_snippet:
  fixes unzipped query
  defines "cll \<equiv> cumulativeLineLengths unzipped"
    and "sel \<equiv> getSelectionFromQuery query"
  defines "sc \<equiv> startChar cll sel"
  defines "ec \<equiv> endChar cll (cutoff sc unzipped) sel"
  assumes "decompress (Some code) = Some unzipped" and "unzipped \<noteq> []"
    and "format unzipped sc ec = Inr pretty"
  shows "createPlaygroundEmbed decompress format (matched, query, code) url_arg
         = Inr \<lparr>url = (case url_arg of None \<Rightarrow> matched | Some u \<Rightarrow> u),
                description = Some (makeCodeBlock
                  (extract_text pretty sc (maxEnd (prettyEnd pretty unzipped ec) sc)))\<rparr>"
  using assms by (simp add: createPlaygroundEmbed_def Let_def)

section \<open>Properties of the scans\<close>

text \<open>
  Claim C8, as stated: with \<open>ignoreLatest\<close> the first message of the fetched sequence
  is the one left out of the scan. The code filters the bots out first and then drops
  the first message that is left. When the newest message is a bot's and the next one,
  from a user, holds a code block, the code finds nothing, and a scan of the sequence
  without its first message finds the block.
\<close>

theorem C8_counterexample:
  "findCodeblockFromChannel [bot_message (ascii ''hello''), user_message (fenced ''x'')] True = None
   \<and> findCodeblockFromChannel (drop 1 [bot_message (ascii ''hello''), user_message (fenced ''x'')]) False
       = Some (ascii ''x'')"
  by (simp add: findCodeblockFromChannel_def bot_message_def user_message_def exec_fenced_x
      match_at_def sample_bodies)

text \<open>
  Claim C8, amended: with \<open>ignoreLatest\<close> the message left out of the scan is the
  newest message whose author is not a bot (messages of bots are never scanned): the
  result is that of the scan, without \<open>ignoreLatest\<close>, of the sequence without that
  message.
\<close>

theorem C8_newest_non_bot_dropped:
  assumes "list_all author_bot bots" and "\<not> author_bot msg"
  shows "findCodeblockFromChannel (bots @ msg # older) True
         = findCodeblockFromChannel (bots @ older) False"
proof -
  from assms(1) have "filter (\<lambda>m. author_bot m \<noteq> True) bots = []"
    by (induction bots) auto
  with assms(2) show ?thesis
    by (simp add: findCodeblockFromChannel_def)
qed

text \<open>
  Claim C8, witness: a bot's message, then two messages of a user with a code block
  each; the scan returns the block of the older one.
\<close>

theorem C8_newest_non_bot_dropped_witness:
  "list_all author_bot [bot_message (ascii ''hello'')]
   \<and> \<not> author_bot (user_message (fenced ''x''))
   \<and> findCodeblockFromChannel
         ([bot_message (ascii ''hello'')] @ user_message (fenced ''x'') # [user_message (fenced ''y'')])
         True
       = Some (ascii ''y'')
   \<and> findCodeblockFromChannel
         ([bot_message (ascii ''hello'')] @ [user_message (fenced ''y'')]) False
       = Some (ascii ''y'')"
proof -
  have a: "list_all author_bot [bot_message (ascii ''hello'')]"
    and b: "\<not> author_bot (user_message (fenced ''x''))"
    by (simp_all add: bot_message_def user_message_def)
  have c: "findCodeblockFromChannel
         ([bot_message (ascii ''hello'')] @ [user_message (fenced ''y'')]) False
       = Some (ascii ''y'')"
    by (simp add: findCodeblockFromChannel_def bot_message_def user_message_def exec_fenced_y
      match_at_def sample_bodies)
  from C8_newest_non_bot_dropped [OF a b, of "[user_message (fenced ''y'')]"] a b c
  show ?thesis by simp
qed

text \<open>
  Claim C3, as stated: when the payload of a matched link does not decode, the message
  yields no code, there is no hard failure, and the scan goes on to the next message.
  The code returns what the decoder returned, at once. For a message that is a link,
  followed by an older message with a code block, and a decoder that fails, the result
  is \<open>null\<close>, while the scan of the older message alone returns its block.
\<close>

theorem C3_counterexample:
  "findCodeFromChannel failing_decoder [user_message sample_link, user_message (fenced ''x'')]
     = Inr Null
   \<and> findCodeFromChannel failing_decoder [user_message (fenced ''x'')] = Inr (Value (ascii ''x''))"
  by (simp add: codeblock_of_def link_of_def of_decoded_def failing_decoder_def
      user_message_def exec_link exec_fenced_x match_at_def sample_bodies)

text \<open>
  Claim C3, amended: when a message returns no code block (its author is a bot or its
  text holds none) and its text matches the link pattern, the scan stops at that
  message whatever the decoder returns: the result is what the decoder returned,
  \<open>null\<close> or a string, without a hard failure, and it is the result of the scan of
  that message alone, so the older messages are not examined.
\<close>

theorem C3_scan_stops_at_first_link:
  assumes "author_bot msg \<or> RegExp_exec CODEBLOCK_REGEX (content msg) = None"
    and "RegExp_exec PLAYGROUND_REGEX (content msg) = Some m"
  shows "findCodeFromChannel decompress (msg # older) = findCodeFromChannel decompress [msg]
         \<and> (\<exists>passed. findCodeFromChannel decompress (msg # older)
                        = Inr (of_decoded (decompress passed)))"
proof -
  from assms(1) have "codeblock_of msg = None"
    by (auto simp: codeblock_of_def)
  moreover from assms(2)
  have "link_of decompress (content msg) = Some (of_decoded (decompress (match_at m 1)))"
    by (simp add: link_of_def)
  ultimately have "findCodeFromChannel decompress (msg # msgs)
                   = Inr (of_decoded (decompress (match_at m 1)))" for msgs
    by simp
  then show ?thesis by metis
qed

text \<open>
  Claim C3, witness: the link message followed by the message with a code block, once
  with the decoder that returns \<open>null\<close> and once with the one that returns the empty
  string.
\<close>

theorem C3_scan_stops_at_first_link_witness:
  "RegExp_exec CODEBLOCK_REGEX (content (user_message sample_link)) = None
   \<and> RegExp_exec PLAYGROUND_REGEX (content (user_message sample_link))
       = Some [Some sample_link, Some [], Some (ascii ''abc'')]
   \<and> findCodeFromChannel failing_decoder [user_message sample_link, user_message (fenced ''x'')]
       = Inr Null
   \<and> findCodeFromChannel blank_decoder [user_message sample_link, user_message (fenced ''x'')]
       = Inr (Value [])"
proof -
  let ?link = "user_message sample_link"
  let ?older = "[user_message (fenced ''x'')]"
  have n: "RegExp_exec CODEBLOCK_REGEX (content ?link) = None"
    and b: "RegExp_exec PLAYGROUND_REGEX (content ?link)
       = Some [Some sample_link, Some [], Some (ascii ''abc'')]"
    by (simp_all add: user_message_def exec_link)
  from n have a: "author_bot ?link \<or> RegExp_exec CODEBLOCK_REGEX (content ?link) = None" ..
  from C3_scan_stops_at_first_link [OF a b, of failing_decoder ?older]
  have "\<exists>passed. findCodeFromChannel failing_decoder (?link # ?older)
                    = Inr (of_decoded (failing_decoder passed))"
    by (rule conjunct2)
  then have c: "findCodeFromChannel failing_decoder (?link # ?older) = Inr Null"
    unfolding failing_decoder_def of_decoded_def option.case by blast
  from C3_scan_stops_at_first_link [OF a b, of blank_decoder ?older]
  have "\<exists>passed. findCodeFromChannel blank_decoder (?link # ?older)
                    = Inr (of_decoded (blank_decoder passed))"
    by (rule conjunct2)
  then have d: "findCodeFromChannel blank_decoder (?link # ?older) = Inr (Value [])"
    unfolding blank_decoder_def of_decoded_def option.case by blast
  from n b c d show ?thesis by blast
qed

text \<open>
  The same for a link found in an embed: when neither a code block nor the text of the
  message returns, and an embed has a link that matches the pattern, the scan stops at
  that message.
\<close>

lemma scan_stops_at_first_embed_link:
  assumes "author_bot msg \<or> RegExp_exec CODEBLOCK_REGEX (content msg) = None"
    and "RegExp_exec PLAYGROUND_REGEX (content msg) = None"
    and "embeds msg = Some link # others"
    and "RegExp_exec PLAYGROUND_REGEX link = Some m"
  shows "findCodeFromChannel decompress (msg # older) = findCodeFromChannel decompress [msg]"
proof -
  from assms(1) have "codeblock_of msg = None"
    by (auto simp: codeblock_of_def)
  moreover from assms(2) have "link_of decompress (content msg) = None"
    by (simp add: link_of_def)
  moreover from assms(3,4) have "embed_link_of decompress (embeds msg) \<noteq> None"
    by (simp add: link_of_def)
  ultimately show ?thesis by auto
qed

section \<open>Properties of the edit handler\<close>

lemma map_get_has: "map_get m k = Some v \<Longrightarrow> map_has m k"
proof -
  assume "map_get m k = Some v"
  then have "map_of (entries m) k \<noteq> None" by (simp add: map_get_def)
  then show ?thesis by (simp add: map_has_def map_of_eq_None_iff)
qed

lemma map_delete_has: "\<not> map_has (map_delete m k) k"
  by (auto simp: map_has_def map_delete_def)

text \<open>
  Claim C9, as stated: on an edit, when the map holds the id of the message and the
  text no longer matches the link pattern, the reply is cleared and the entry removed.
  Two cases break it. The handler returns first when the author of the message is a
  bot: the tracker is unchanged and the reply keeps its text. And when the reply was
  deleted in the meantime, \<open>edit\<close> rejects, the handler throws before it reaches
  \<open>delete\<close>, and the entry stays.
\<close>

theorem C9_counterexample:
  "author_bot (bot_message (ascii ''hello''))
   \<and> map_has (editedLongLink (tracking (ascii ''2''))) (message_id (bot_message (ascii ''hello'')))
   \<and> RegExp_exec PLAYGROUND_REGEX (content (bot_message (ascii ''hello''))) = None
   \<and> onLongFix Inr (tracking (ascii ''2'')) (bot_message (ascii ''hello''))
       = (tracking (ascii ''2''), None)
   \<and> reply_text (tracking (ascii ''2'')) (ascii ''9'') = Some (ascii ''shortened'')
   \<and> \<not> author_bot (user_message (ascii ''hello''))
   \<and> map_has (editedLongLink (tracking_deleted (ascii ''1'')))
         (message_id (user_message (ascii ''hello'')))
   \<and> RegExp_exec PLAYGROUND_REGEX (content (user_message (ascii ''hello''))) = None
   \<and> onLongFix Inr (tracking_deleted (ascii ''1'')) (user_message (ascii ''hello''))
       = (tracking_deleted (ascii ''1''), Some ApiError)"
  by (simp add: onLongFix_def edit_def bot_message_def user_message_def tracking_def
      tracking_deleted_def map_has_def map_get_def exec_hello)

text \<open>
  Claim C9, amended: on an edit of a message that is complete or that the fetch
  completes: when its author is not a bot, the map holds its id, the reply recorded for
  it still exists and its text no longer matches the link pattern, the text of that
  reply is cleared, the entry is removed and nothing is thrown; when its author is a
  bot, its text still matches, or its id is not in the map, nothing changes.
\<close>

theorem C9_onLongFix:
  assumes "(if partial msg0 then fetch msg0 else Inr msg0) = Inr msg"
  shows "(\<not> author_bot msg \<and> map_get (editedLongLink st) (message_id msg) = Some reply
           \<and> reply_text st reply \<noteq> None
           \<and> RegExp_exec PLAYGROUND_REGEX (content msg) = None \<longrightarrow>
            reply_text (fst (onLongFix fetch st msg0)) reply = Some []
            \<and> \<not> map_has (editedLongLink (fst (onLongFix fetch st msg0))) (message_id msg)
            \<and> snd (onLongFix fetch st msg0) = None)
         \<and> (author_bot msg \<or> RegExp_exec PLAYGROUND_REGEX (content msg) \<noteq> None
              \<or> \<not> map_has (editedLongLink st) (message_id msg) \<longrightarrow>
            onLongFix fetch st msg0 = (st, None))"
proof (intro conjI impI)
  assume "author_bot msg \<or> RegExp_exec PLAYGROUND_REGEX (content msg) \<noteq> None
          \<or> \<not> map_has (editedLongLink st) (message_id msg)"
  then show "onLongFix fetch st msg0 = (st, None)"
    unfolding onLongFix_def assms by auto
next
  assume a: "\<not> author_bot msg \<and> map_get (editedLongLink st) (message_id msg) = Some reply
           \<and> reply_text st reply \<noteq> None
           \<and> RegExp_exec PLAYGROUND_REGEX (content msg) = None"
  then have "map_has (editedLongLink st) (message_id msg)"
    by (blast intro: map_get_has)
  with a have run: "onLongFix fetch st msg0
      = (st\<lparr>reply_text := (reply_text st)(reply \<mapsto> []),
            editedLongLink := map_delete (editedLongLink st) (message_id msg)\<rparr>, None)"
    unfolding onLongFix_def assms by (auto simp: edit_def)
  show "reply_text (fst (onLongFix fetch st msg0)) reply = Some []"
    and "\<not> map_has (editedLongLink (fst (onLongFix fetch st msg0))) (message_id msg)"
    and "snd (onLongFix fetch st msg0) = None"
    by (simp_all add: run map_delete_has)
qed

text \<open>
  Claim C9, witness: a user's message without a link whose id is tracked and whose
  reply still exists; the reply 9 is cleared and the entry is gone.
\<close>

theorem C9_onLongFix_witness:
  "\<not> author_bot (user_message (ascii ''hello''))
   \<and> map_get (editedLongLink (tracking (ascii ''1''))) (message_id (user_message (ascii ''hello'')))
       = Some (ascii ''9'')
   \<and> reply_text (tracking (ascii ''1'')) (ascii ''9'') \<noteq> None
   \<and> RegExp_exec PLAYGROUND_REGEX (content (user_message (ascii ''hello''))) = None
   \<and> reply_text (fst (onLongFix Inr (tracking (ascii ''1'')) (user_message (ascii ''hello''))))
        (ascii ''9'') = Some []
   \<and> \<not> map_has (editedLongLink
          (fst (onLongFix Inr (tracking (ascii ''1'')) (user_message (ascii ''hello'')))))
        (message_id (user_message (ascii ''hello'')))
   \<and> snd (onLongFix Inr (tracking (ascii ''1'')) (user_message (ascii ''hello''))) = None"
proof -
  let ?m = "user_message (ascii ''hello'')"
  let ?st = "tracking (ascii ''1'')"
  have f: "(if partial ?m then Inr ?m else Inr ?m) = Inr ?m" by simp
  have h: "\<not> author_bot ?m
      \<and> map_get (editedLongLink ?st) (message_id ?m) = Some (ascii ''9'')
      \<and> reply_text ?st (ascii ''9'') \<noteq> None
      \<and> RegExp_exec PLAYGROUND_REGEX (content ?m) = None"
    by (simp add: user_message_def tracking_def map_get_def exec_hello)
  from C9_onLongFix [of ?m Inr ?m ?st "ascii ''9''", OF f] h
  show ?thesis by blast
qed

end
